theory Spec2Isabelle
  imports Main "HOL-Library.Sublist"
begin

section \<open>Python strings\<close>

text \<open>
  A Python \<open>str\<close> is modelled as a \<open>string\<close>; every \<open>char\<close> stands for one code
  point (the model covers texts whose code points are below 256, so \<open>length\<close> counts what
  Python's \<open>len\<close> counts). The functions below follow the CPython behaviour of the
  \<open>str\<close> methods and of \<open>posixpath\<close> that \<open>generate_mjai_html.py\<close> calls.
\<close>

definition NL :: char where
  "NL = CHR 0x0A"

definition SQ :: char where
  "SQ = CHR 0x27"

definition SEP :: char where
  "SEP = CHR ''/''"

text \<open>\<open>s.endswith(suf)\<close>\<close>

definition endswith :: "'a list \<Rightarrow> 'a list \<Rightarrow> bool" where
  "endswith s suf = suffix suf s"

text \<open>\<open>s.find(sub)\<close>: the index of the first occurrence, \<open>-1\<close> when there is none.\<close>

fun str_find :: "'a list \<Rightarrow> 'a list \<Rightarrow> int" where
  "str_find [] sub = (if sub = [] then 0 else - 1)"
| "str_find (c # s) sub =
     (if prefix sub (c # s) then 0
      else (let r = str_find s sub in if r = - 1 then - 1 else r + 1))"

text \<open>
  \<open>s.replace(old, new)\<close>: every occurrence of \<open>old\<close>, found from the left without
  overlap, becomes \<open>new\<close>; an empty \<open>old\<close> matches before every character and at the end.
\<close>

function str_replace :: "'a list \<Rightarrow> 'a list \<Rightarrow> 'a list \<Rightarrow> 'a list" where
  "str_replace [] old new = (if old = [] then new else [])"
| "str_replace (c # s) old new =
     (if old = [] then new @ c # str_replace s old new
      else if prefix old (c # s) then new @ str_replace (drop (length old) (c # s)) old new
      else c # str_replace s old new)"
  by pat_completeness auto
termination
  by (relation "measure (\<lambda>(s, old, new). length s)") auto

text \<open>The slices \<open>s[:i]\<close> and \<open>s[i:]\<close>; a negative index counts from the end.\<close>

definition slice_to :: "'a list \<Rightarrow> int \<Rightarrow> 'a list" where
  "slice_to s i = take (nat (if i < 0 then i + int (length s) else i)) s"

definition slice_from :: "'a list \<Rightarrow> int \<Rightarrow> 'a list" where
  "slice_from s i = drop (nat (if i < 0 then i + int (length s) else i)) s"

text \<open>\<open>c.isspace()\<close> on the code points below 256, and \<open>s.strip()\<close>.\<close>

definition isspace :: "char \<Rightarrow> bool" where
  "isspace c \<longleftrightarrow> c \<in> set [CHR 0x09, CHR 0x0A, CHR 0x0B, CHR 0x0C, CHR 0x0D,
     CHR 0x1C, CHR 0x1D, CHR 0x1E, CHR 0x1F, CHR 0x20, CHR 0x85, CHR 0xA0]"

definition str_strip :: "string \<Rightarrow> string" where
  "str_strip s = rev (dropWhile isspace (rev (dropWhile isspace s)))"

text \<open>\<open>sep.join(xs)\<close>\<close>

fun str_join :: "'a list \<Rightarrow> 'a list list \<Rightarrow> 'a list" where
  "str_join sep [] = []"
| "str_join sep [x] = x"
| "str_join sep (x # y # ys) = x @ sep @ str_join sep (y # ys)"

text \<open>
  \<open>for line in f\<close> on a text stream: the text is cut after every newline, and each line
  keeps its newline; \<open>cur\<close> is the line read so far, reversed.
\<close>

fun iter_lines_from :: "string \<Rightarrow> string \<Rightarrow> string list" where
  "iter_lines_from cur [] = (if cur = [] then [] else [rev cur])"
| "iter_lines_from cur (c # s) =
     (if c = NL then rev (c # cur) # iter_lines_from [] s else iter_lines_from (c # cur) s)"

definition iter_lines :: "string \<Rightarrow> string list" where
  "iter_lines text = iter_lines_from [] text"

text \<open>\<open>str(n)\<close> for a length or a counter.\<close>

function str_nat :: "nat \<Rightarrow> string" where
  "str_nat n =
     (if n < 10 then [char_of (48 + n)]
      else str_nat (n div 10) @ [char_of (48 + n mod 10)])"
  by pat_completeness auto
termination
  by (relation "measure id") auto

declare str_nat.simps [simp del]

definition quoted :: "string \<Rightarrow> string" where
  "quoted s = [SQ] @ s @ [SQ]"

subsection \<open>\<open>os.path\<close> on POSIX\<close>

definition basename :: "string \<Rightarrow> string" where
  "basename p = rev (takeWhile (\<lambda>c. c \<noteq> SEP) (rev p))"

definition dirname :: "string \<Rightarrow> string" where
  "dirname p =
     (let head = rev (dropWhile (\<lambda>c. c \<noteq> SEP) (rev p))
      in if head \<noteq> [] \<and> \<not> list_all (\<lambda>c. c = SEP) head
         then rev (dropWhile (\<lambda>c. c = SEP) (rev head))
         else head)"

definition path_join :: "string \<Rightarrow> string \<Rightarrow> string" where
  "path_join a b =
     (if prefix [SEP] b then b
      else if a = [] \<or> endswith a [SEP] then a @ b
      else a @ [SEP] @ b)"

section \<open>The file system and the platform\<close>

text \<open>
  The world the script runs in: the regular files with their contents, the directories,
  the paths at which opening for writing or removing raises (with the text of the
  exception), and what has been printed so far, one entry per \<open>print\<close> call.
\<close>

record world =
  files :: "string \<rightharpoonup> string"
  dirs :: "string set"
  denied :: "string \<rightharpoonup> string"
  stdout :: "string list"

text \<open>
  What \<open>gzip.open(path, 'rt', encoding='utf-8')\<close> followed by the iteration over the
  stream gives: the whole decoded text, or the text of the lines delivered before an
  exception, with the text of that exception. The text is the one the stream delivers,
  after its translation of carriage returns to the newline.
\<close>

datatype read_outcome = Complete string | Failed string string

text \<open>
  What \<open>json.loads(line)\<close> does: it returns a value, which the script drops; or it
  raises \<open>JSONDecodeError\<close>; or it raises another exception, with the text given (a
  \<open>ValueError\<close> for an integer of more than 4300 digits, a \<open>RecursionError\<close> for a line
  nested too deep).
\<close>

datatype loads_outcome = Parsed | JSONDecodeError | OtherError string

text \<open>
  The library functions the script calls and the repository does not define:
  decompression and decoding of a file's contents, \<open>json.loads\<close> and \<open>Path.glob\<close>, which
  gives the paths of the matching entries as \<open>str\<close> prints them.
\<close>

record platform =
  gzip_text :: "string \<Rightarrow> read_outcome"
  json_loads :: "string \<Rightarrow> loads_outcome"
  glob :: "world \<Rightarrow> string \<Rightarrow> string \<Rightarrow> string list"

definition print :: "world \<Rightarrow> string \<Rightarrow> world" where
  "print w s = w\<lparr>stdout := stdout w @ [s]\<rparr>"

definition path_exists :: "world \<Rightarrow> string \<Rightarrow> bool" where
  "path_exists w p \<longleftrightarrow> files w p \<noteq> None \<or> p \<in> dirs w"

definition isfile :: "world \<Rightarrow> string \<Rightarrow> bool" where
  "isfile w p \<longleftrightarrow> files w p \<noteq> None"

definition isdir :: "world \<Rightarrow> string \<Rightarrow> bool" where
  "isdir w p \<longleftrightarrow> p \<in> dirs w"

definition open_error :: "world \<Rightarrow> string \<Rightarrow> string" where
  "open_error w p =
     (if p \<in> dirs w then ''[Errno 21] Is a directory: '' @ quoted p
      else ''[Errno 2] No such file or directory: '' @ quoted p)"

text \<open>\<open>open(p, 'r').read()\<close>: the contents, or the text of the exception.\<close>

definition read_text :: "world \<Rightarrow> string \<Rightarrow> string + string" where
  "read_text w p = (case files w p of None \<Rightarrow> Inl (open_error w p) | Some c \<Rightarrow> Inr c)"

text \<open>
  \<open>open(p, 'w').write(c)\<close>: the file holds \<open>c\<close> afterwards, whatever it held before; a
  failure is a failure to open, which leaves the world as it was.
\<close>

definition write_text :: "world \<Rightarrow> string \<Rightarrow> string \<Rightarrow> string + world" where
  "write_text w p c =
     (case denied w p of
        Some e \<Rightarrow> Inl e
      | None \<Rightarrow>
          if p \<in> dirs w \<or> p = [] then Inl (open_error w p)
          else Inr (w\<lparr>files := (files w)(p \<mapsto> c)\<rparr>))"

text \<open>\<open>os.remove(p)\<close>\<close>

definition os_remove :: "world \<Rightarrow> string \<Rightarrow> string + world" where
  "os_remove w p =
     (case denied w p of
        Some e \<Rightarrow> Inl e
      | None \<Rightarrow>
          if files w p = None then Inl (open_error w p)
          else Inr (w\<lparr>files := (files w)(p := None)\<rparr>))"

definition gzip_open_rt :: "platform \<Rightarrow> world \<Rightarrow> string \<Rightarrow> read_outcome" where
  "gzip_open_rt P w p =
     (case files w p of None \<Rightarrow> Failed [] (open_error w p) | Some raw \<Rightarrow> gzip_text P raw)"

section \<open>\<open>generate_mjai_html.py\<close>\<close>

subsection \<open>\<open>extract_mjai_log\<close>\<close>

text \<open>The warning printed for a line that does not parse.\<close>

definition invalid_line_warning :: "string \<Rightarrow> string \<Rightarrow> string" where
  "invalid_line_warning json_gz_path line =
     ''Warning: Skipping invalid JSON line in '' @ json_gz_path @ '': ''
       @ slice_to line 100 @ ''...''"

text \<open>
  The body of the loop over the lines of the archive; \<open>acc\<close> is the list \<open>lines\<close>. The
  loop ends with the list (\<open>Inr\<close>), or with the text of an exception of \<open>json.loads\<close>
  that the inner handler does not catch (\<open>Inl\<close>), which leaves the loop at that line.
\<close>

primrec read_lines ::
  "platform \<Rightarrow> string \<Rightarrow> world \<Rightarrow> string list \<Rightarrow> string list \<Rightarrow> world \<times> (string + string list)" where
  "read_lines P json_gz_path w [] acc = (w, Inr acc)"
| "read_lines P json_gz_path w (l # ls) acc =
     (let line = str_strip l in
      if line \<noteq> [] then
        (case json_loads P line of
           Parsed \<Rightarrow> read_lines P json_gz_path w ls (acc @ [line])
         | JSONDecodeError \<Rightarrow>
             read_lines P json_gz_path (print w (invalid_line_warning json_gz_path line)) ls acc
         | OtherError e \<Rightarrow> (w, Inl e))
      else read_lines P json_gz_path w ls acc)"

text \<open>
  The outer handler (lines 45 to 47) catches whatever is raised inside the \<open>try\<close>: by the
  stream, or by \<open>json.loads\<close> on one of the lines delivered before the stream fails.
\<close>

definition extract_mjai_log :: "platform \<Rightarrow> world \<Rightarrow> string \<Rightarrow> world \<times> string option" where
  "extract_mjai_log P w json_gz_path =
     (case gzip_open_rt P w json_gz_path of
        Complete text \<Rightarrow>
          (case read_lines P json_gz_path w (iter_lines text) [] of
             (w', Inr lines) \<Rightarrow> (w', Some (str_join [NL] lines))
           | (w', Inl e) \<Rightarrow>
               (print w' (''Error extracting '' @ json_gz_path @ '': '' @ e), None))
      | Failed text e \<Rightarrow>
          (case read_lines P json_gz_path w (iter_lines text) [] of
             (w', Inr lines) \<Rightarrow>
               (print w' (''Error extracting '' @ json_gz_path @ '': '' @ e), None)
           | (w', Inl e') \<Rightarrow>
               (print w' (''Error extracting '' @ json_gz_path @ '': '' @ e'), None)))"

subsection \<open>\<open>generate_html_file\<close>\<close>

definition start_marker :: string where
  "start_marker = ''allActions = `'' @ [NL]"

definition end_marker :: string where
  "end_marker = [NL] @ ''    `.trim().split('' @ [SQ, CHR 0x5C] @ ''n'' @ [SQ]
     @ '').map(s => JSON.parse(s))''"

text \<open>
  Lines 75 to 90 of the script: the search for the two markers and the construction of
  \<open>new_content\<close>; \<open>None\<close> is the branch that prints the error and returns.
\<close>

definition splice_template :: "string \<Rightarrow> string \<Rightarrow> string option" where
  "splice_template template_content mjai_data =
     (let start_pos = str_find template_content start_marker;
          end_pos = str_find template_content end_marker
      in if start_pos = - 1 \<or> end_pos = - 1 then None
         else
           (let before_data = slice_to template_content (start_pos + int (length start_marker));
                after_data = slice_from template_content end_pos
            in Some (before_data @ mjai_data @ after_data)))"

text \<open>Lines 92 to 99: the path the report is written to.\<close>

definition output_path_of :: "string \<Rightarrow> string option \<Rightarrow> string" where
  "output_path_of json_gz_path output_dir =
     (let json_gz_name = basename json_gz_path;
          html_name = str_replace json_gz_name ''.json.gz'' ''.html'';
          output_dir' = (case output_dir of None \<Rightarrow> dirname json_gz_path | Some d \<Rightarrow> d)
      in path_join output_dir' html_name)"

definition generate_html_file ::
  "platform \<Rightarrow> world \<Rightarrow> string \<Rightarrow> string \<Rightarrow> string option \<Rightarrow> world \<times> string option" where
  "generate_html_file P w json_gz_path template_path output_dir =
     (case extract_mjai_log P w json_gz_path of
        (w1, None) \<Rightarrow> (w1, None)
      | (w1, Some mjai_data) \<Rightarrow>
          (case read_text w1 template_path of
             Inl e \<Rightarrow>
               (print w1 (''Error reading template '' @ template_path @ '': '' @ e), None)
           | Inr template_content \<Rightarrow>
               (case splice_template template_content mjai_data of
                  None \<Rightarrow>
                    (print w1 (''Error: Could not find template markers in '' @ template_path),
                     None)
                | Some new_content \<Rightarrow>
                    (let output_path = output_path_of json_gz_path output_dir
                     in case write_text w1 output_path new_content of
                          Inr w2 \<Rightarrow> (print w2 (''Generated: '' @ output_path), Some output_path)
                        | Inl e \<Rightarrow>
                            (print w1 (''Error writing HTML file '' @ output_path @ '': '' @ e),
                             None)))))"

subsection \<open>\<open>process_directory\<close>\<close>

text \<open>
  The loop over the matched files: \<open>n\<close> is their number, \<open>i\<close> the counter of
  \<open>enumerate(json_gz_files, 1)\<close>. \<open>if html_file:\<close> holds for a path that is neither
  \<open>None\<close> nor empty.
\<close>

primrec process_files ::
  "platform \<Rightarrow> string \<Rightarrow> string option \<Rightarrow> nat \<Rightarrow> world \<Rightarrow> nat \<Rightarrow> string list \<Rightarrow> string list
     \<Rightarrow> world \<times> string list" where
  "process_files P template_path output_dir n w i [] generated_files = (w, generated_files)"
| "process_files P template_path output_dir n w i (json_gz_file # rest) generated_files =
     (let w1 = print w (''Processing '' @ str_nat i @ ''/'' @ str_nat n @ '': ''
                         @ basename json_gz_file)
      in case generate_html_file P w1 json_gz_file template_path output_dir of
           (w2, html_file) \<Rightarrow>
             process_files P template_path output_dir n w2 (Suc i) rest
               (case html_file of
                  None \<Rightarrow> generated_files
                | Some h \<Rightarrow> if h \<noteq> [] then generated_files @ [h] else generated_files))"

definition process_directory ::
  "platform \<Rightarrow> world \<Rightarrow> string \<Rightarrow> string \<Rightarrow> string option \<Rightarrow> string \<Rightarrow> world \<times> string list" where
  "process_directory P w input_dir template_path output_dir pattern =
     (let w1 = (if \<not> endswith pattern ''.json.gz''
                then print w (''Warning: Pattern '' @ quoted pattern
                               @ '' does not end with .json.gz'')
                else w)
      in if \<not> endswith pattern ''.json.gz'' \<and> \<not> endswith pattern ''.gz''
         then (print w1 ''Error: Will only process compressed files for safety'', [])
         else
           (let json_gz_files = glob P w1 input_dir pattern
            in if json_gz_files = []
               then (print w1 (''No files matching '' @ quoted pattern @ '' found in ''
                                @ input_dir), [])
               else process_files P template_path output_dir (length json_gz_files)
                      (print w1 (''Found '' @ str_nat (length json_gz_files)
                                  @ '' files to process...''))
                      1 json_gz_files []))"

subsection \<open>\<open>main\<close>\<close>

text \<open>
  Lines 193 to 203: the removal of the reports beyond the limit. \<open>args.limit\<close> is
  \<open>None\<close> or an integer, and \<open>if args.limit\<close> holds for an integer other than 0.
\<close>

definition remove_excess :: "world \<Rightarrow> string \<Rightarrow> world" where
  "remove_excess w file_path =
     (if endswith file_path ''.html'' \<and> path_exists w file_path then
        (case os_remove w file_path of
           Inr w' \<Rightarrow> print w' (''Removed (limit exceeded): '' @ file_path)
         | Inl e \<Rightarrow> print w (''Warning: Could not remove '' @ file_path @ '': '' @ e))
      else w)"

definition enforce_limit :: "world \<Rightarrow> int option \<Rightarrow> string list \<Rightarrow> world \<times> string list" where
  "enforce_limit w limit generated_files =
     (case limit of
        None \<Rightarrow> (w, generated_files)
      | Some l \<Rightarrow>
          if l \<noteq> 0 \<and> int (length generated_files) > l
          then (foldl remove_excess w (slice_from generated_files l),
                slice_to generated_files l)
          else (w, generated_files))"

record args =
  arg_input :: string
  arg_template :: string
  arg_output :: "string option"
  arg_pattern :: string
  arg_limit :: "int option"

text \<open>The result is the world at the end and the exit status of the process.\<close>

definition main :: "platform \<Rightarrow> world \<Rightarrow> args \<Rightarrow> world \<times> nat" where
  "main P w a =
     (if \<not> path_exists w (arg_template a)
      then (print w (''Error: Template file not found: '' @ arg_template a), 1)
      else if isfile w (arg_input a) then
        (if \<not> endswith (arg_input a) ''.json.gz''
         then (print w ''Error: Input file must be a .json.gz file'', 1)
         else
           (case generate_html_file P w (arg_input a) (arg_template a) (arg_output a) of
              (w1, html_file) \<Rightarrow>
                (case html_file of
                   None \<Rightarrow> (print w1 ''Failed to generate HTML file'', 1)
                 | Some h \<Rightarrow>
                     if h \<noteq> [] then (print w1 (''Successfully generated: '' @ h), 0)
                     else (print w1 ''Failed to generate HTML file'', 1))))
      else if isdir w (arg_input a) then
        (case process_directory P w (arg_input a) (arg_template a) (arg_output a) (arg_pattern a) of
           (w1, generated_files) \<Rightarrow>
             (case enforce_limit w1 (arg_limit a) generated_files of
                (w2, generated_files') \<Rightarrow>
                  (print w2 ([NL] @ ''Successfully generated ''
                              @ str_nat (length generated_files') @ '' HTML files''), 0)))
      else (print w (''Error: Input path does not exist: '' @ arg_input a), 1))"

section \<open>Notions of the specification\<close>

text \<open>
  The first occurrence of \<open>sub\<close> in \<open>s\<close> is at index \<open>i\<close>: \<open>sub\<close> starts there and
  at no earlier index. (That \<open>sub\<close> occurs in \<open>s\<close> at all is \<^term>\<open>sublist sub s\<close>.)
\<close>

definition first_occurrence :: "'a list \<Rightarrow> 'a list \<Rightarrow> nat \<Rightarrow> bool" where
  "first_occurrence s sub i \<longleftrightarrow>
     i \<le> length s \<and> prefix sub (drop i s) \<and> (\<forall>j<i. \<not> prefix sub (drop j s))"

text \<open>
  The lines of a decoded archive after \<open>strip()\<close>, blank ones left out, in the order of
  the file. The loop examines them up to the first one on which \<open>json.loads\<close> raises
  something else than \<open>JSONDecodeError\<close>; among the examined lines are those that parse
  and those that do not; the text of that first other exception is the cause of the abort.
\<close>

definition stripped_lines :: "string \<Rightarrow> string list" where
  "stripped_lines text = filter (\<lambda>l. l \<noteq> []) (map str_strip (iter_lines text))"

definition aborts :: "platform \<Rightarrow> string \<Rightarrow> bool" where
  "aborts P l = (case json_loads P l of OtherError e \<Rightarrow> True | _ \<Rightarrow> False)"

definition examined :: "platform \<Rightarrow> string list \<Rightarrow> string list" where
  "examined P S = takeWhile (\<lambda>l. \<not> aborts P l) S"

definition first_abort :: "platform \<Rightarrow> string list \<Rightarrow> string option" where
  "first_abort P S =
     (case dropWhile (\<lambda>l. \<not> aborts P l) S of
        [] \<Rightarrow> None
      | l # _ \<Rightarrow> (case json_loads P l of OtherError e \<Rightarrow> Some e | _ \<Rightarrow> None))"

definition examined_lines :: "platform \<Rightarrow> string \<Rightarrow> string list" where
  "examined_lines P text = examined P (stripped_lines text)"

definition valid_lines :: "platform \<Rightarrow> string \<Rightarrow> string list" where
  "valid_lines P text = filter (\<lambda>l. json_loads P l = Parsed) (examined_lines P text)"

definition invalid_lines :: "platform \<Rightarrow> string \<Rightarrow> string list" where
  "invalid_lines P text = filter (\<lambda>l. json_loads P l = JSONDecodeError) (examined_lines P text)"

definition abort_cause :: "platform \<Rightarrow> string \<Rightarrow> string option" where
  "abort_cause P text = first_abort P (stripped_lines text)"

section \<open>A small world to run the script in\<close>

text \<open>
  Concrete data on which the definitions are evaluated: a platform whose decompression
  knows a few archive contents, whose \<open>json.loads\<close> parses the lines \<open>[1]\<close>, \<open>{}\<close> and
  \<open>[2]\<close> and raises \<open>JSONDecodeError\<close> on every other line, and whose \<open>glob\<close>
  understands patterns of the form \<open>*suffix\<close>; a template; and a directory \<open>logs\<close>.
\<close>

definition demo_text :: string where
  "demo_text = ''[1]'' @ [NL] @ ''  '' @ [NL] @ '' {bad '' @ [NL]"

definition demo_blank_text :: string where
  "demo_blank_text = ''  '' @ [NL] @ ''{bad'' @ [NL] @ [NL]"

text \<open>
  Three lines that parse, with white space around them, a blank line and a malformed
  line between them, and no newline at the end of the file.
\<close>

definition demo_three_text :: string where
  "demo_three_text =
     ''  [1] '' @ [NL] @ [NL] @ ''{bad'' @ [NL] @ ''{}'' @ [NL] @ '' [2]''"

text \<open>
  A line holding the integer of 4301 digits \<open>11...1\<close>, which is well-formed JSON and on
  which \<open>json.loads\<close> raises \<open>ValueError\<close>, followed by a malformed line.
\<close>

definition huge_int_line :: string where
  "huge_int_line = replicate 4301 (CHR ''1'')"

definition demo_huge_text :: string where
  "demo_huge_text = huge_int_line @ [NL] @ ''{bad'' @ [NL]"

definition demo_gunzip :: "string \<Rightarrow> read_outcome" where
  "demo_gunzip raw =
     (if raw = ''gz:log'' then Complete demo_text
      else if raw = ''gz:blank'' then Complete demo_blank_text
      else if raw = ''gz:three'' then Complete demo_three_text
      else if raw = ''gz:huge'' then Complete demo_huge_text
      else if raw = ''gz:cut'' then Failed (''{bad'' @ [NL]) ''Compressed file ended early''
      else Failed [] ''Not a gzipped file'')"

definition demo_glob :: "world \<Rightarrow> string \<Rightarrow> string \<Rightarrow> string list" where
  "demo_glob w input_dir pat =
     filter (\<lambda>p. files w p \<noteq> None \<and> endswith p (tl pat))
       (map (\<lambda>n. input_dir @ [SEP] @ n)
          [''a.json.gz'', ''b.json.gz'', ''blank.json.gz'', ''cut.json.gz'', ''x.gz'',
           ''a.json.gz.gz'', ''notes.txt''])"

definition demo_loads :: "string \<Rightarrow> loads_outcome" where
  "demo_loads s = (if s \<in> set [''[1]'', ''{}'', ''[2]''] then Parsed else JSONDecodeError)"

definition demo_platform :: platform where
  "demo_platform = \<lparr>gzip_text = demo_gunzip, json_loads = demo_loads, glob = demo_glob\<rparr>"

text \<open>The same platform, with the limit of Python on the digits of an integer.\<close>

definition huge_loads :: "string \<Rightarrow> loads_outcome" where
  "huge_loads s =
     (if s = huge_int_line
      then OtherError (''Exceeds the limit (4300 digits) for integer string conversion: ''
             @ ''value has 4301 digits; use sys.set_int_max_str_digits() to increase the limit'')
      else demo_loads s)"

definition huge_platform :: platform where
  "huge_platform = \<lparr>gzip_text = demo_gunzip, json_loads = huge_loads, glob = demo_glob\<rparr>"

definition demo_template :: string where
  "demo_template = ''<script>'' @ start_marker @ ''OLD'' @ end_marker @ ''</script>''"

definition demo_world :: world where
  "demo_world =
     \<lparr>files = [''logs/a.json.gz'' \<mapsto> ''gz:log'', ''logs/blank.json.gz'' \<mapsto> ''gz:blank'',
               ''logs/cut.json.gz'' \<mapsto> ''gz:cut'', ''logs/x.gz'' \<mapsto> ''gz:log'',
               ''logs/a.json.gz.gz'' \<mapsto> ''gz:log'', ''logs/three.json.gz'' \<mapsto> ''gz:three'',
               ''logs/huge.json.gz'' \<mapsto> ''gz:huge'', ''t.html'' \<mapsto> demo_template,
               ''plain.html'' \<mapsto> ''<html></html>''],
      dirs = {''logs''},
      denied = Map.empty,
      stdout = []\<rparr>"

text \<open>The report for \<open>logs/a.json.gz\<close>, and the world after it has been generated.\<close>

definition demo_report :: string where
  "demo_report = ''<script>'' @ start_marker @ ''[1]'' @ end_marker @ ''</script>''"

definition demo_world_after :: world where
  "demo_world_after = demo_world
     \<lparr>files := (files demo_world)(''logs/a.html'' \<mapsto> demo_report),
      stdout := [''Warning: Skipping invalid JSON line in logs/a.json.gz: {bad...'',
                 ''Generated: logs/a.html'']\<rparr>"

text \<open>The command line for the directory \<open>logs\<close>, with a pattern and a limit.\<close>

definition demo_args :: "string \<Rightarrow> int option \<Rightarrow> args" where
  "demo_args pat lim =
     \<lparr>arg_input = ''logs'', arg_template = ''t.html'', arg_output = None,
      arg_pattern = pat, arg_limit = lim\<rparr>"

text \<open>A directory \<open>logs\<close> whose only archive is named \<open>a.json.gz\<close>.\<close>

definition one_world :: world where
  "one_world =
     \<lparr>files = [''logs/a.json.gz'' \<mapsto> ''gz:log'', ''t.html'' \<mapsto> demo_template],
      dirs = {''logs''},
      denied = Map.empty,
      stdout = []\<rparr>"

text \<open>A directory \<open>logs\<close> whose only archive is named \<open>a.json.gz.gz\<close>.\<close>

definition y_world :: world where
  "y_world =
     \<lparr>files = [''logs/a.json.gz.gz'' \<mapsto> ''gz:log'', ''t.html'' \<mapsto> demo_template],
      dirs = {''logs''},
      denied = Map.empty,
      stdout = []\<rparr>"

text \<open>A directory \<open>logs\<close> whose only archive is named \<open>x.gz\<close>.\<close>

definition x_world :: world where
  "x_world =
     \<lparr>files = [''logs/x.gz'' \<mapsto> ''gz:log'', ''t.html'' \<mapsto> demo_template],
      dirs = {''logs''},
      denied = Map.empty,
      stdout = []\<rparr>"

section \<open>Searching a string\<close>

lemma str_find_ge: "- 1 \<le> str_find s sub"
  by (induction s) (auto simp: Let_def)

lemma first_occurrence_Nil: "first_occurrence [] sub i \<longleftrightarrow> sub = [] \<and> i = 0"
  by (auto simp: first_occurrence_def)

lemma first_occurrence_Cons:
  "first_occurrence (c # s) sub i \<longleftrightarrow>
     (if prefix sub (c # s) then i = 0 else \<exists>j. i = Suc j \<and> first_occurrence s sub j)"
proof (cases i)
  case 0
  then show ?thesis by (auto simp: first_occurrence_def)
next
  case (Suc j)
  have "(\<forall>k<Suc j. \<not> prefix sub (drop k (c # s))) \<longleftrightarrow>
        \<not> prefix sub (c # s) \<and> (\<forall>k<j. \<not> prefix sub (drop k s))"
    by (auto simp: less_Suc_eq_0_disj)
  with Suc show ?thesis by (auto simp: first_occurrence_def)
qed

lemma str_find_first: "str_find s sub = int i \<longleftrightarrow> first_occurrence s sub i"
proof (induction s arbitrary: i)
  case Nil
  show ?case by (auto simp: first_occurrence_Nil)
next
  case (Cons c s)
  have ge: "- 1 \<le> str_find s sub" by (rule str_find_ge)
  show ?case
  proof (cases "prefix sub (c # s)")
    case True
    then show ?thesis by (simp add: first_occurrence_Cons)
  next
    case False
    show ?thesis
    proof (cases i)
      case 0
      with False ge show ?thesis by (auto simp: first_occurrence_Cons Let_def)
    next
      case (Suc j)
      with False Cons [of j] show ?thesis by (auto simp: first_occurrence_Cons Let_def)
    qed
  qed
qed

lemma str_find_absent: "str_find s sub = - 1 \<longleftrightarrow> \<not> sublist sub s"
proof (induction s)
  case Nil
  show ?case by auto
next
  case (Cons c s)
  have ge: "- 1 \<le> str_find s sub" by (rule str_find_ge)
  show ?case
  proof (cases "prefix sub (c # s)")
    case True
    then show ?thesis by (auto simp: sublist_Cons_right)
  next
    case False
    with Cons ge show ?thesis by (auto simp: sublist_Cons_right Let_def)
  qed
qed

lemma str_find_present:
  assumes "sublist sub s"
  shows "\<exists>i. str_find s sub = int i \<and> first_occurrence s sub i"
proof -
  from assms have "str_find s sub \<noteq> - 1" by (simp add: str_find_absent)
  with str_find_ge [of s sub] have "0 \<le> str_find s sub" by arith
  then obtain i where "str_find s sub = int i" by (metis nonneg_int_cases)
  then show ?thesis by (auto simp: str_find_first)
qed

lemma first_occurrence_split:
  assumes "first_occurrence s sub i"
  shows "take (i + length sub) s = take i s @ sub" and "drop i s = sub @ drop (i + length sub) s"
proof -
  from assms obtain r where r: "drop i s = sub @ r"
    by (auto simp: first_occurrence_def prefix_def)
  have "take (length sub) (drop i s) = sub" using r by simp
  then show "take (i + length sub) s = take i s @ sub"
    by (simp add: take_add)
  have "drop (i + length sub) s = drop (length sub) (drop i s)"
    by (simp add: add.commute)
  also have "\<dots> = r" using r by simp
  finally show "drop i s = sub @ drop (i + length sub) s"
    using r by simp
qed

section \<open>The template splicer\<close>

text \<open>
  Claim C3. For every template text in which both markers occur and every payload, the
  spliced document is the template up to and including the first occurrence of the start
  marker, then the payload, then the template from the first occurrence of the end marker
  onward: the part of the template before the start marker and the start marker itself,
  and the end marker and all that follows it, are in the document as they are in the
  template, whatever the payload is (empty, or holding the markers' text).
\<close>

theorem splice_markers_present:
  assumes "sublist start_marker T" and "sublist end_marker T"
  shows "\<exists>i k. first_occurrence T start_marker i \<and> first_occurrence T end_marker k \<and>
           splice_template T payload = Some (take (i + length start_marker) T @ payload @ drop k T) \<and>
           take (i + length start_marker) T = take i T @ start_marker \<and>
           drop k T = end_marker @ drop (k + length end_marker) T"
proof -
  from assms(1) obtain i where i: "str_find T start_marker = int i" "first_occurrence T start_marker i"
    using str_find_present by blast
  from assms(2) obtain k where k: "str_find T end_marker = int k" "first_occurrence T end_marker k"
    using str_find_present by blast
  have "splice_template T payload = Some (take (i + length start_marker) T @ payload @ drop k T)"
    using i(1) k(1) by (simp add: splice_template_def slice_to_def slice_from_def nat_add_distrib)
  with i(2) k(2) first_occurrence_split [OF i(2)] first_occurrence_split [OF k(2)]
  show ?thesis by blast
qed

theorem splice_markers_present_witness:
  "sublist start_marker (''A'' @ start_marker @ ''OLD'' @ end_marker @ ''Z'') \<and>
   sublist end_marker (''A'' @ start_marker @ ''OLD'' @ end_marker @ ''Z'') \<and>
   (\<exists>i k. first_occurrence (''A'' @ start_marker @ ''OLD'' @ end_marker @ ''Z'') start_marker i \<and>
      first_occurrence (''A'' @ start_marker @ ''OLD'' @ end_marker @ ''Z'') end_marker k \<and>
      splice_template (''A'' @ start_marker @ ''OLD'' @ end_marker @ ''Z'') end_marker =
        Some (take (i + length start_marker) (''A'' @ start_marker @ ''OLD'' @ end_marker @ ''Z'')
              @ end_marker @ drop k (''A'' @ start_marker @ ''OLD'' @ end_marker @ ''Z'')) \<and>
      take (i + length start_marker) (''A'' @ start_marker @ ''OLD'' @ end_marker @ ''Z'') =
        take i (''A'' @ start_marker @ ''OLD'' @ end_marker @ ''Z'') @ start_marker \<and>
      drop k (''A'' @ start_marker @ ''OLD'' @ end_marker @ ''Z'') =
        end_marker @ drop (k + length end_marker) (''A'' @ start_marker @ ''OLD'' @ end_marker @ ''Z''))"
proof -
  have a: "sublist start_marker (''A'' @ start_marker @ ''OLD'' @ end_marker @ ''Z'')"
    by (rule sublist_appendI)
  have "sublist end_marker ((''A'' @ start_marker @ ''OLD'') @ end_marker @ ''Z'')"
    by (rule sublist_appendI)
  then have b: "sublist end_marker (''A'' @ start_marker @ ''OLD'' @ end_marker @ ''Z'')"
    by simp
  from a b splice_markers_present [OF a b, of end_marker] show ?thesis
    by blast
qed

section \<open>The archive reader and the report generator\<close>

lemma examined_simps:
  "examined P [] = []"
  "examined P (l # S) = (if aborts P l then [] else l # examined P S)"
  by (simp_all add: examined_def)

lemma first_abort_simps:
  "first_abort P [] = None"
  "first_abort P (l # S) =
     (case json_loads P l of OtherError e \<Rightarrow> Some e | _ \<Rightarrow> first_abort P S)"
  by (simp_all add: first_abort_def aborts_def split: loads_outcome.splits)

lemma first_abort_None:
  "first_abort P S = None \<longleftrightarrow>
     (\<forall>l\<in>set S. json_loads P l = Parsed \<or> json_loads P l = JSONDecodeError)"
  by (induction S) (auto simp: first_abort_simps split: loads_outcome.splits)

lemma examined_all: "first_abort P S = None \<Longrightarrow> examined P S = S"
  by (induction S)
     (auto simp: first_abort_simps examined_simps aborts_def split: loads_outcome.splits)

lemma read_lines_eq:
  "read_lines P p w ls acc =
     (w\<lparr>stdout := stdout w @ map (invalid_line_warning p)
          (filter (\<lambda>l. json_loads P l = JSONDecodeError)
             (examined P (filter (\<lambda>l. l \<noteq> []) (map str_strip ls))))\<rparr>,
      case first_abort P (filter (\<lambda>l. l \<noteq> []) (map str_strip ls)) of
        None \<Rightarrow> Inr (acc @ filter (\<lambda>l. json_loads P l = Parsed)
                  (examined P (filter (\<lambda>l. l \<noteq> []) (map str_strip ls))))
      | Some e \<Rightarrow> Inl e)"
proof (induction ls arbitrary: w acc)
  case Nil
  show ?case by (simp add: examined_simps first_abort_simps)
next
  case (Cons l ls)
  show ?case
  proof (cases "str_strip l = []")
    case True
    then show ?thesis by (simp add: Cons cong: option.case_cong)
  next
    case False
    show ?thesis
    proof (cases "json_loads P (str_strip l)")
      case Parsed
      with False show ?thesis
        by (simp add: Cons examined_simps first_abort_simps aborts_def cong: option.case_cong)
    next
      case JSONDecodeError
      with False show ?thesis
        by (simp add: Cons examined_simps first_abort_simps aborts_def print_def
              cong: option.case_cong)
    next
      case (OtherError e)
      with False show ?thesis
        by (simp add: examined_simps first_abort_simps aborts_def)
    qed
  qed
qed

lemma read_lines_text:
  "read_lines P p w (iter_lines text) [] =
     (w\<lparr>stdout := stdout w @ map (invalid_line_warning p) (invalid_lines P text)\<rparr>,
      case abort_cause P text of None \<Rightarrow> Inr (valid_lines P text) | Some e \<Rightarrow> Inl e)"
  by (simp add: read_lines_eq invalid_lines_def valid_lines_def examined_lines_def
        abort_cause_def stripped_lines_def cong: option.case_cong)

lemma extract_Complete:
  assumes "gzip_open_rt P w p = Complete text" and "abort_cause P text = None"
  shows "extract_mjai_log P w p =
     (w\<lparr>stdout := stdout w @ map (invalid_line_warning p) (invalid_lines P text)\<rparr>,
      Some (str_join [NL] (valid_lines P text)))"
  using assms by (simp add: extract_mjai_log_def read_lines_text)

lemma extract_abort:
  assumes "gzip_open_rt P w p = Complete text" and "abort_cause P text = Some e"
  shows "extract_mjai_log P w p =
     (w\<lparr>stdout := stdout w @ map (invalid_line_warning p) (invalid_lines P text)
                    @ [''Error extracting '' @ p @ '': '' @ e]\<rparr>,
      None)"
  using assms by (simp add: extract_mjai_log_def read_lines_text print_def)

lemma extract_Failed:
  assumes "gzip_open_rt P w p = Failed text e"
  shows "extract_mjai_log P w p =
     (w\<lparr>stdout := stdout w @ map (invalid_line_warning p) (invalid_lines P text)
                    @ [''Error extracting '' @ p @ '': ''
                         @ (case abort_cause P text of None \<Rightarrow> e | Some e' \<Rightarrow> e')]\<rparr>,
      None)"
  using assms
  by (cases "abort_cause P text") (simp_all add: extract_mjai_log_def read_lines_text print_def)

lemma abort_cause_None:
  "abort_cause P text = None \<longleftrightarrow>
     (\<forall>l\<in>set (map str_strip (iter_lines text)).
        l \<noteq> [] \<longrightarrow> json_loads P l = Parsed \<or> json_loads P l = JSONDecodeError)"
  by (auto simp: abort_cause_def first_abort_None stripped_lines_def)

lemma valid_lines_all:
  assumes "abort_cause P text = None"
  shows "valid_lines P text =
           filter (\<lambda>l. l \<noteq> [] \<and> json_loads P l = Parsed) (map str_strip (iter_lines text))"
    and "invalid_lines P text =
           filter (\<lambda>l. l \<noteq> [] \<and> json_loads P l = JSONDecodeError)
             (map str_strip (iter_lines text))"
  using assms examined_all [of P "stripped_lines text"]
  by (simp_all add: valid_lines_def invalid_lines_def examined_lines_def abort_cause_def
        stripped_lines_def conj_commute)

lemma iter_lines_from_butlast:
  "NL \<notin> set cur \<Longrightarrow> \<forall>l\<in>set (iter_lines_from cur s). NL \<notin> set (butlast l)"
proof (induction s arbitrary: cur)
  case Nil
  then show ?case by (auto dest: list.set_sel(2))
next
  case (Cons c s)
  show ?case
  proof (cases "c = NL")
    case True
    have "\<forall>l\<in>set (iter_lines_from [] s). NL \<notin> set (butlast l)"
      by (rule Cons.IH) simp
    with True Cons.prems show ?thesis by simp
  next
    case False
    with Cons.prems have "NL \<notin> set (c # cur)" by simp
    then have "\<forall>l\<in>set (iter_lines_from (c # cur) s). NL \<notin> set (butlast l)"
      by (rule Cons.IH)
    with False show ?thesis by simp
  qed
qed

lemma iter_lines_butlast: "l \<in> set (iter_lines text) \<Longrightarrow> NL \<notin> set (butlast l)"
  using iter_lines_from_butlast [of "[]" "text"] by (simp add: iter_lines_def)

lemma isspace_NL: "isspace NL"
  by (simp add: isspace_def NL_def)

lemma str_strip_no_NL:
  assumes "NL \<notin> set (butlast l)"
  shows "NL \<notin> set (str_strip l)"
proof -
  define m where "m = dropWhile isspace l"
  have l: "l = takeWhile isspace l @ m" by (simp add: m_def)
  show ?thesis
  proof (cases "m = []")
    case True
    show ?thesis unfolding str_strip_def m_def [symmetric] True by simp
  next
    case False
    then have bl: "butlast l = takeWhile isspace l @ butlast m"
      using l by (metis butlast_append)
    with assms have nb: "NL \<notin> set (butlast m)" by simp
    have rm: "rev m = last m # rev (butlast m)"
      using False by (metis append_butlast_last_id rev_append rev_singleton_conv append_Cons append_Nil)
    have sub: "set (dropWhile isspace (rev m)) \<subseteq> (if last m = NL then {} else {last m}) \<union> set (butlast m)"
    proof (cases "last m = NL")
      case True
      then have "dropWhile isspace (rev m) = dropWhile isspace (rev (butlast m))"
        by (metis rm isspace_NL dropWhile.simps(2))
      then show ?thesis using set_dropWhileD [of _ isspace "rev (butlast m)"] True by auto
    next
      case False
      have "set m = insert (last m) (set (butlast m))"
        using rm by (metis set_rev list.simps(15))
      moreover have "set (dropWhile isspace (rev m)) \<subseteq> set m"
        using set_dropWhileD [of _ isspace "rev m"] by auto
      ultimately show ?thesis using False by auto
    qed
    have "set (str_strip l) = set (dropWhile isspace (rev m))"
      unfolding str_strip_def m_def [symmetric] by simp
    with sub nb show ?thesis by (auto split: if_splits)
  qed
qed

lemma str_join_concat: "str_join [c] xs = butlast (concat (map (\<lambda>l. l @ [c]) xs))"
proof (induction "[c]" xs rule: str_join.induct)
  case 1
  show ?case by simp
next
  case (2 x)
  show ?case by simp
next
  case (3 x y ys)
  have "butlast (x @ [c] @ concat (map (\<lambda>l. l @ [c]) (y # ys))) =
        x @ [c] @ butlast (concat (map (\<lambda>l. l @ [c]) (y # ys)))"
    by (simp add: butlast_append)
  with 3 show ?case by simp
qed

lemma examined_subset: "set (examined P S) \<subseteq> set S"
  by (auto simp: examined_def dest: set_takeWhileD)

lemma valid_lines_no_NL: "l \<in> set (valid_lines P text) \<Longrightarrow> NL \<notin> set l"
proof -
  assume "l \<in> set (valid_lines P text)"
  then have "l \<in> set (stripped_lines text)"
    using examined_subset [of P "stripped_lines text"]
    by (auto simp: valid_lines_def examined_lines_def)
  then show ?thesis
    using str_strip_no_NL iter_lines_butlast by (fastforce simp: stripped_lines_def)
qed

lemma generate_ok:
  assumes "gzip_open_rt P w a = Complete text" and "abort_cause P text = None"
    and "files w t = Some T"
    and "splice_template T (str_join [NL] (valid_lines P text)) = Some doc"
    and "denied w (output_path_of a od) = None"
    and "output_path_of a od \<notin> dirs w"
    and "output_path_of a od \<noteq> []"
  shows "generate_html_file P w a t od =
     (w\<lparr>files := (files w)(output_path_of a od \<mapsto> doc),
        stdout := stdout w @ map (invalid_line_warning a) (invalid_lines P text)
                    @ [''Generated: '' @ output_path_of a od]\<rparr>,
      Some (output_path_of a od))"
  using assms
  by (simp add: generate_html_file_def extract_Complete read_text_def write_text_def print_def
        Let_def)

lemma generate_Some:
  assumes "generate_html_file P w a t od = (w', Some out)"
  shows "\<exists>text T doc. gzip_open_rt P w a = Complete text \<and> abort_cause P text = None \<and>
           files w t = Some T \<and>
           splice_template T (str_join [NL] (valid_lines P text)) = Some doc \<and>
           out = output_path_of a od \<and> files w' = (files w)(out \<mapsto> doc)"
proof (cases "gzip_open_rt P w a")
  case (Failed tx e)
  with assms show ?thesis
    by (simp add: generate_html_file_def extract_Failed)
next
  case (Complete tx)
  show ?thesis
  proof (cases "abort_cause P tx")
    case (Some e)
    with Complete assms show ?thesis
      by (simp add: generate_html_file_def extract_abort)
  next
    case None
    with Complete assms show ?thesis
      by (auto simp: generate_html_file_def extract_Complete read_text_def write_text_def
            print_def Let_def split: option.splits sum.splits if_splits)
  qed
qed

section \<open>The payload of a readable archive\<close>

lemma iter_lines_from_plain:
  "NL \<notin> set s \<Longrightarrow>
   iter_lines_from cur (s @ NL # rest) = (rev cur @ s @ [NL]) # iter_lines_from [] rest"
  by (induction s arbitrary: cur) auto

lemma iter_lines_plain:
  "NL \<notin> set s \<Longrightarrow> iter_lines (s @ NL # rest) = (s @ [NL]) # iter_lines rest"
  by (simp add: iter_lines_def iter_lines_from_plain)

lemma str_strip_plain:
  assumes "s \<noteq> []" and "\<not> isspace (hd s)" and "\<not> isspace (last s)"
  shows "str_strip (s @ [NL]) = s"
proof -
  from assms(1,2) have a: "dropWhile isspace s = s"
    by (cases s) simp_all
  from assms(1,2) have "dropWhile isspace (s @ [NL]) = s @ [NL]"
    by (cases s) simp_all
  moreover have "dropWhile isspace (rev s) = rev s"
    using assms(1,3) by (cases "rev s") (simp_all add: last_rev [symmetric] hd_rev)
  ultimately show ?thesis
    by (simp add: str_strip_def isspace_NL)
qed

lemma huge_int_line_facts:
  "huge_int_line \<noteq> []" "hd huge_int_line = CHR ''1''" "last huge_int_line = CHR ''1''"
  "NL \<notin> set huge_int_line" "length huge_int_line = 4301"
  by (simp_all add: huge_int_line_def NL_def)

lemma huge_int_line_neq: "length s \<noteq> 4301 \<Longrightarrow> s \<noteq> huge_int_line"
  using huge_int_line_facts(5) by auto

lemma demo_huge_lines: "map str_strip (iter_lines demo_huge_text) = [huge_int_line, ''{bad'']"
proof -
  have "iter_lines demo_huge_text = [huge_int_line @ [NL], ''{bad'' @ [NL]]"
    unfolding demo_huge_text_def
    by (simp add: iter_lines_plain huge_int_line_facts)
       (simp add: iter_lines_def NL_def)
  moreover have "str_strip (huge_int_line @ [NL]) = huge_int_line"
    by (rule str_strip_plain) (simp_all add: huge_int_line_facts isspace_def)
  moreover have "str_strip (''{bad'' @ [NL]) = ''{bad''"
    by (rule str_strip_plain) (simp_all add: isspace_def)
  ultimately show ?thesis by simp
qed

lemma huge_loads_simps:
  "json_loads huge_platform huge_int_line =
     OtherError (''Exceeds the limit (4300 digits) for integer string conversion: ''
       @ ''value has 4301 digits; use sys.set_int_max_str_digits() to increase the limit'')"
  "json_loads huge_platform ''{bad'' = JSONDecodeError"
  by (simp_all add: huge_platform_def huge_loads_def demo_loads_def huge_int_line_neq)

lemma demo_huge_abort:
  "abort_cause huge_platform demo_huge_text =
     Some (''Exceeds the limit (4300 digits) for integer string conversion: ''
       @ ''value has 4301 digits; use sys.set_int_max_str_digits() to increase the limit'')"
  "invalid_lines huge_platform demo_huge_text = []"
  using huge_int_line_facts(1)
  by (simp_all add: abort_cause_def invalid_lines_def examined_lines_def stripped_lines_def
        demo_huge_lines first_abort_simps examined_simps aborts_def huge_loads_simps)

lemma demo_open_huge:
  "gzip_open_rt huge_platform demo_world ''logs/huge.json.gz'' = Complete demo_huge_text"
  by (simp add: gzip_open_rt_def demo_world_def huge_platform_def demo_gunzip_def)

lemma demo_stdout: "stdout demo_world = []"
  by (simp add: demo_world_def)

lemma demo_three_lines:
  "map str_strip (iter_lines demo_three_text) = [''[1]'', [], ''{bad'', ''{}'', ''[2]'']"
  by (simp add: demo_three_text_def iter_lines_def str_strip_def isspace_def NL_def)

lemma demo_open_three:
  "gzip_open_rt demo_platform demo_world ''logs/three.json.gz'' = Complete demo_three_text"
  by (simp add: gzip_open_rt_def demo_world_def demo_platform_def demo_gunzip_def)

text \<open>
  Claim C7. For a readable archive on whose non-blank stripped lines
  \<open>json.loads\<close> raises nothing but \<open>JSONDecodeError\<close>, the payload is made of the stripped
  non-blank lines that parse, verbatim and in the order of the file, each followed by one
  newline except the last; none of them holds a newline; and one warning naming the
  archive and showing the first 100 characters of the line is printed for every non-blank
  line that does not parse, in the order of the file. When \<open>json.loads\<close> raises another
  exception on a line, the reader stops at that line: it prints the error naming the
  archive and that exception and returns \<open>None\<close>.
\<close>

theorem extract_mjai_log_payload:
  assumes "gzip_open_rt P w p = Complete text"
  shows
    "((\<forall>l\<in>set (map str_strip (iter_lines text)).
         l \<noteq> [] \<longrightarrow> json_loads P l = Parsed \<or> json_loads P l = JSONDecodeError) \<longrightarrow>
        extract_mjai_log P w p =
          (w\<lparr>stdout := stdout w @ map (invalid_line_warning p)
               (filter (\<lambda>l. l \<noteq> [] \<and> json_loads P l = JSONDecodeError)
                  (map str_strip (iter_lines text)))\<rparr>,
           Some (butlast (concat (map (\<lambda>l. l @ [NL])
                   (filter (\<lambda>l. l \<noteq> [] \<and> json_loads P l = Parsed)
                      (map str_strip (iter_lines text))))))) \<and>
        (\<forall>l\<in>set (filter (\<lambda>l. l \<noteq> [] \<and> json_loads P l = Parsed)
                    (map str_strip (iter_lines text))). NL \<notin> set l)) \<and>
     (abort_cause P text = None \<longleftrightarrow>
        (\<forall>l\<in>set (map str_strip (iter_lines text)).
           l \<noteq> [] \<longrightarrow> json_loads P l = Parsed \<or> json_loads P l = JSONDecodeError)) \<and>
     (\<forall>e. abort_cause P text = Some e \<longrightarrow>
        extract_mjai_log P w p =
          (w\<lparr>stdout := stdout w @ map (invalid_line_warning p) (invalid_lines P text)
                         @ [''Error extracting '' @ p @ '': '' @ e]\<rparr>,
           None)) \<and>
     (\<forall>l. invalid_line_warning p l =
        ''Warning: Skipping invalid JSON line in '' @ p @ '': '' @ take 100 l @ ''...'')"
proof -
  have 1: "extract_mjai_log P w p =
          (w\<lparr>stdout := stdout w @ map (invalid_line_warning p)
               (filter (\<lambda>l. l \<noteq> [] \<and> json_loads P l = JSONDecodeError)
                  (map str_strip (iter_lines text)))\<rparr>,
           Some (butlast (concat (map (\<lambda>l. l @ [NL])
                   (filter (\<lambda>l. l \<noteq> [] \<and> json_loads P l = Parsed)
                      (map str_strip (iter_lines text))))))) \<and>
        (\<forall>l\<in>set (filter (\<lambda>l. l \<noteq> [] \<and> json_loads P l = Parsed)
                    (map str_strip (iter_lines text))). NL \<notin> set l)"
    if h: "\<forall>l\<in>set (map str_strip (iter_lines text)).
         l \<noteq> [] \<longrightarrow> json_loads P l = Parsed \<or> json_loads P l = JSONDecodeError"
  proof -
    from h have n: "abort_cause P text = None"
      by (simp add: abort_cause_None)
    have "\<forall>l\<in>set (valid_lines P text). NL \<notin> set l"
      using valid_lines_no_NL by blast
    with extract_Complete [OF assms n] show ?thesis
      by (simp add: valid_lines_all [OF n] str_join_concat)
  qed
  have 2: "extract_mjai_log P w p =
          (w\<lparr>stdout := stdout w @ map (invalid_line_warning p) (invalid_lines P text)
                         @ [''Error extracting '' @ p @ '': '' @ e]\<rparr>,
           None)"
    if "abort_cause P text = Some e" for e
    using that by (rule extract_abort [OF assms])
  have 3: "invalid_line_warning p l =
        ''Warning: Skipping invalid JSON line in '' @ p @ '': '' @ take 100 l @ ''...''" for l
    by (simp add: invalid_line_warning_def slice_to_def)
  from 1 2 3 abort_cause_None [of P "text"] show ?thesis
    by blast
qed

theorem extract_mjai_log_payload_witness:
  "gzip_open_rt demo_platform demo_world ''logs/three.json.gz'' = Complete demo_three_text \<and>
   map str_strip (iter_lines demo_three_text) = [''[1]'', [], ''{bad'', ''{}'', ''[2]''] \<and>
   map (json_loads demo_platform) [''[1]'', ''{bad'', ''{}'', ''[2]''] =
     [Parsed, JSONDecodeError, Parsed, Parsed] \<and>
   extract_mjai_log demo_platform demo_world ''logs/three.json.gz'' =
     (demo_world\<lparr>stdout :=
        [''Warning: Skipping invalid JSON line in logs/three.json.gz: {bad...'']\<rparr>,
      Some (''[1]'' @ [NL] @ ''{}'' @ [NL] @ ''[2]'')) \<and>
   gzip_open_rt huge_platform demo_world ''logs/huge.json.gz'' = Complete demo_huge_text \<and>
   abort_cause huge_platform demo_huge_text =
     Some (''Exceeds the limit (4300 digits) for integer string conversion: ''
       @ ''value has 4301 digits; use sys.set_int_max_str_digits() to increase the limit'') \<and>
   extract_mjai_log huge_platform demo_world ''logs/huge.json.gz'' =
     (demo_world\<lparr>stdout :=
        [''Error extracting logs/huge.json.gz: ''
         @ ''Exceeds the limit (4300 digits) for integer string conversion: ''
         @ ''value has 4301 digits; use sys.set_int_max_str_digits() to increase the limit'']\<rparr>,
      None)"
proof -
  have l: "map (json_loads demo_platform) [''[1]'', ''{bad'', ''{}'', ''[2]''] =
     [Parsed, JSONDecodeError, Parsed, Parsed]"
    by (simp add: demo_platform_def demo_loads_def)
  note a = extract_mjai_log_payload [OF demo_open_three, THEN conjunct1]
  have e3: "extract_mjai_log demo_platform demo_world ''logs/three.json.gz'' =
     (demo_world\<lparr>stdout :=
        [''Warning: Skipping invalid JSON line in logs/three.json.gz: {bad...'']\<rparr>,
      Some (''[1]'' @ [NL] @ ''{}'' @ [NL] @ ''[2]''))"
    using a
    by (simp add: demo_three_lines demo_platform_def demo_loads_def invalid_line_warning_def
          slice_to_def demo_stdout)
  note b = extract_mjai_log_payload [OF demo_open_huge, THEN conjunct2, THEN conjunct2,
      THEN conjunct1, rule_format, OF demo_huge_abort(1)]
  have eh: "extract_mjai_log huge_platform demo_world ''logs/huge.json.gz'' =
     (demo_world\<lparr>stdout :=
        [''Error extracting logs/huge.json.gz: ''
         @ ''Exceeds the limit (4300 digits) for integer string conversion: ''
         @ ''value has 4301 digits; use sys.set_int_max_str_digits() to increase the limit'']\<rparr>,
      None)"
    using b by (simp add: demo_huge_abort(2) demo_stdout)
  from demo_open_three demo_three_lines l e3 demo_open_huge demo_huge_abort(1) eh
  show ?thesis by blast
qed

text \<open>
  The claim as the specification words it fails for a readable archive on one of whose
  lines \<open>json.loads\<close> raises an exception other than \<open>JSONDecodeError\<close>. The archive
  \<open>logs/huge.json.gz\<close> decompresses and decodes; its first line is an integer of 4301
  digits, on which \<open>json.loads\<close> raises \<open>ValueError\<close>, and its second line \<open>{bad\<close> does not
  parse. The reader returns \<open>None\<close> and prints the error only: the line that does not parse
  gets no diagnostic with a preview, and there is no payload.
\<close>

theorem extract_mjai_log_abort_counterexample:
  "gzip_open_rt huge_platform demo_world ''logs/huge.json.gz'' = Complete demo_huge_text \<and>
   map str_strip (iter_lines demo_huge_text) = [huge_int_line, ''{bad''] \<and>
   json_loads huge_platform ''{bad'' = JSONDecodeError \<and>
   extract_mjai_log huge_platform demo_world ''logs/huge.json.gz'' =
     (demo_world\<lparr>stdout :=
        [''Error extracting logs/huge.json.gz: ''
         @ ''Exceeds the limit (4300 digits) for integer string conversion: ''
         @ ''value has 4301 digits; use sys.set_int_max_str_digits() to increase the limit'']\<rparr>,
      None)"
  using demo_open_huge demo_huge_lines huge_loads_simps(2)
    extract_abort [OF demo_open_huge demo_huge_abort(1)]
  by (simp add: demo_huge_abort(2) demo_stdout)

section \<open>Archives that cannot be read, and archives without a valid line\<close>

text \<open>
  Claim C8. For an archive that cannot be opened, decompressed or decoded, the reader
  returns \<open>None\<close> and its last print is the error naming the archive and the cause; the
  generator returns \<open>None\<close> in the world the reader left, in which no file has changed.
  The cause is the exception that stopped the reader: the read error, unless \<open>json.loads\<close>
  raised an exception other than \<open>JSONDecodeError\<close> on a line read before it.
\<close>

theorem unreadable_archive_no_output:
  assumes "gzip_open_rt P w a = Failed text e"
  shows "extract_mjai_log P w a =
           (w\<lparr>stdout := stdout w @ map (invalid_line_warning a) (invalid_lines P text)
                          @ [''Error extracting '' @ a @ '': ''
                               @ (case abort_cause P text of None \<Rightarrow> e | Some e' \<Rightarrow> e')]\<rparr>,
            None) \<and>
         generate_html_file P w a t od = (fst (extract_mjai_log P w a), None) \<and>
         files (fst (generate_html_file P w a t od)) = files w"
  using assms by (simp add: extract_Failed generate_html_file_def)

lemma demo_open_missing:
  "gzip_open_rt demo_platform demo_world ''logs/b.json.gz'' =
     Failed [] (''[Errno 2] No such file or directory: '' @ quoted ''logs/b.json.gz'')"
  by (simp add: gzip_open_rt_def demo_world_def open_error_def)

theorem unreadable_archive_no_output_witness:
  "gzip_open_rt demo_platform demo_world ''logs/b.json.gz'' =
     Failed [] (''[Errno 2] No such file or directory: '' @ quoted ''logs/b.json.gz'') \<and>
   generate_html_file demo_platform demo_world ''logs/b.json.gz'' ''t.html'' None =
     (demo_world\<lparr>stdout := [''Error extracting logs/b.json.gz: [Errno 2] No such file or directory: ''
                               @ quoted ''logs/b.json.gz'']\<rparr>, None) \<and>
   files (fst (generate_html_file demo_platform demo_world ''logs/b.json.gz'' ''t.html'' None)) =
     files demo_world"
  using demo_open_missing
    unreadable_archive_no_output [OF demo_open_missing, of "''t.html''" None]
  by (simp add: invalid_lines_def examined_lines_def abort_cause_def stripped_lines_def
        iter_lines_def examined_simps first_abort_simps demo_world_def)




lemma demo_find_start: "str_find demo_template start_marker = 8"
  by (simp add: demo_template_def start_marker_def end_marker_def NL_def SQ_def)

lemma demo_find_end: "str_find demo_template end_marker = 26"
  by (simp add: demo_template_def start_marker_def end_marker_def NL_def SQ_def)

lemma demo_splice:
  "splice_template demo_template payload =
     Some (''<script>'' @ start_marker @ payload @ end_marker @ ''</script>'')"
  by (simp add: splice_template_def demo_find_start demo_find_end slice_to_def slice_from_def)
     (simp add: demo_template_def start_marker_def end_marker_def)





section \<open>Running the generator twice\<close>

lemma demo_lines:
  "map str_strip (iter_lines demo_text) = [''[1]'', [], ''{bad'']"
  by (simp add: demo_text_def iter_lines_def str_strip_def isspace_def NL_def)

lemma demo_abort: "abort_cause demo_platform demo_text = None"
  by (simp add: abort_cause_None demo_lines demo_platform_def demo_loads_def)

lemma demo_valid_lines: "valid_lines demo_platform demo_text = [''[1]'']"
  unfolding valid_lines_all(1) [OF demo_abort] demo_lines
  by (simp add: demo_platform_def demo_loads_def)

lemma demo_invalid_lines: "invalid_lines demo_platform demo_text = [''{bad'']"
  unfolding valid_lines_all(2) [OF demo_abort] demo_lines
  by (simp add: demo_platform_def demo_loads_def)

lemma demo_open_a: "gzip_open_rt demo_platform demo_world ''logs/a.json.gz'' = Complete demo_text"
  by (simp add: gzip_open_rt_def demo_world_def demo_platform_def demo_gunzip_def)

lemma gzip_open_rt_Complete_cong:
  assumes "files w1 a = files w2 a" and "gzip_open_rt P w1 a = Complete tx"
  shows "gzip_open_rt P w2 a = Complete tx"
  using assms by (auto simp: gzip_open_rt_def split: option.splits)

text \<open>
  Claim C9. Two runs of the generator on the same archive path, template path and output
  directory, in worlds where the archive has the same contents and the template has the
  same contents, write the same path, and the file there has the same contents after
  both: the report is a function of the contents of the archive and of the template.
\<close>

theorem generate_html_file_deterministic:
  assumes "files w1 a = files w2 a" and "files w1 t = files w2 t"
    and "generate_html_file P w1 a t od = (w1', Some out1)"
    and "generate_html_file P w2 a t od = (w2', Some out2)"
  shows "out1 = out2 \<and> files w1' out1 = files w2' out2 \<and> files w1' out1 \<noteq> None"
proof -
  from generate_Some [OF assms(3)] obtain tx1 T1 doc1 where
    1: "gzip_open_rt P w1 a = Complete tx1" "abort_cause P tx1 = None" "files w1 t = Some T1"
       "splice_template T1 (str_join [NL] (valid_lines P tx1)) = Some doc1"
       "out1 = output_path_of a od" "files w1' = (files w1)(out1 \<mapsto> doc1)"
    by blast
  from generate_Some [OF assms(4)] obtain tx2 T2 doc2 where
    2: "gzip_open_rt P w2 a = Complete tx2" "abort_cause P tx2 = None" "files w2 t = Some T2"
       "splice_template T2 (str_join [NL] (valid_lines P tx2)) = Some doc2"
       "out2 = output_path_of a od" "files w2' = (files w2)(out2 \<mapsto> doc2)"
    by blast
  from gzip_open_rt_Complete_cong [OF assms(1) 1(1)] 2(1) have "tx1 = tx2" by simp
  moreover from assms(2) 1(3) 2(3) have "T1 = T2" by simp
  ultimately have "doc1 = doc2" using 1(4) 2(4) by simp
  with 1(5,6) 2(5,6) show ?thesis by simp
qed

lemma output_path_a: "output_path_of ''logs/a.json.gz'' None = ''logs/a.html''"
  by (simp add: output_path_of_def basename_def dirname_def path_join_def endswith_def SEP_def
        suffix_to_prefix)

lemma demo_generate_a:
  "generate_html_file demo_platform demo_world ''logs/a.json.gz'' ''t.html'' None =
     (demo_world_after, Some ''logs/a.html'')"
proof -
  have "generate_html_file demo_platform demo_world ''logs/a.json.gz'' ''t.html'' None =
     (demo_world\<lparr>files := (files demo_world)(output_path_of ''logs/a.json.gz'' None \<mapsto> demo_report),
        stdout := stdout demo_world @ map (invalid_line_warning ''logs/a.json.gz'')
                    (invalid_lines demo_platform demo_text)
                    @ [''Generated: '' @ output_path_of ''logs/a.json.gz'' None]\<rparr>,
      Some (output_path_of ''logs/a.json.gz'' None))"
    by (rule generate_ok [OF demo_open_a demo_abort, where T = demo_template])
       (simp_all add: demo_valid_lines demo_splice demo_report_def output_path_a demo_world_def)
  then show ?thesis
    by (simp add: output_path_a demo_invalid_lines invalid_line_warning_def slice_to_def
          demo_world_after_def demo_world_def)
qed

lemma demo_generate_a_again:
  "generate_html_file demo_platform demo_world_after ''logs/a.json.gz'' ''t.html'' None =
     (demo_world_after\<lparr>stdout := stdout demo_world_after @
         [''Warning: Skipping invalid JSON line in logs/a.json.gz: {bad...'',
          ''Generated: logs/a.html'']\<rparr>, Some ''logs/a.html'')"
proof -
  have o: "gzip_open_rt demo_platform demo_world_after ''logs/a.json.gz'' = Complete demo_text"
    by (simp add: gzip_open_rt_def demo_world_after_def demo_world_def demo_platform_def
          demo_gunzip_def)
  have "generate_html_file demo_platform demo_world_after ''logs/a.json.gz'' ''t.html'' None =
     (demo_world_after\<lparr>files := (files demo_world_after)(output_path_of ''logs/a.json.gz'' None \<mapsto> demo_report),
        stdout := stdout demo_world_after @ map (invalid_line_warning ''logs/a.json.gz'')
                    (invalid_lines demo_platform demo_text)
                    @ [''Generated: '' @ output_path_of ''logs/a.json.gz'' None]\<rparr>,
      Some (output_path_of ''logs/a.json.gz'' None))"
    by (rule generate_ok [OF o demo_abort, where T = demo_template])
       (simp_all add: demo_valid_lines demo_splice demo_report_def output_path_a
          demo_world_after_def demo_world_def)
  then show ?thesis
    by (simp add: output_path_a demo_invalid_lines invalid_line_warning_def slice_to_def
          demo_world_after_def demo_world_def)
qed

theorem generate_html_file_deterministic_witness:
  "files demo_world ''logs/a.json.gz'' = files demo_world_after ''logs/a.json.gz'' \<and>
   files demo_world ''t.html'' = files demo_world_after ''t.html'' \<and>
   snd (generate_html_file demo_platform demo_world ''logs/a.json.gz'' ''t.html'' None) =
     Some ''logs/a.html'' \<and>
   snd (generate_html_file demo_platform demo_world_after ''logs/a.json.gz'' ''t.html'' None) =
     Some ''logs/a.html'' \<and>
   files (fst (generate_html_file demo_platform demo_world ''logs/a.json.gz'' ''t.html'' None))
       ''logs/a.html'' =
     files (fst (generate_html_file demo_platform demo_world_after ''logs/a.json.gz'' ''t.html'' None))
       ''logs/a.html'' \<and>
   files (fst (generate_html_file demo_platform demo_world ''logs/a.json.gz'' ''t.html'' None))
       ''logs/a.html'' \<noteq> None"
proof -
  have a: "files demo_world ''logs/a.json.gz'' = files demo_world_after ''logs/a.json.gz''"
    and t: "files demo_world ''t.html'' = files demo_world_after ''t.html''"
    by (simp_all add: demo_world_after_def)
  from generate_html_file_deterministic [OF a t demo_generate_a demo_generate_a_again] a t
  show ?thesis by (simp add: demo_generate_a demo_generate_a_again)
qed

section \<open>Templates without markers\<close>

lemma splice_template_None:
  "splice_template T d = None \<longleftrightarrow> \<not> sublist start_marker T \<or> \<not> sublist end_marker T"
  by (simp add: splice_template_def Let_def str_find_absent)

text \<open>
  Claim C4, as the script has it. Splicing fails exactly when one of the two markers does
  not occur in the template, and the generator then prints the error naming the template
  path and returns \<open>None\<close>; a template holding both markers is spliced wherever they
  stand: the script does not compare the two positions.
\<close>

theorem splice_template_fails_iff_marker_absent:
  "(splice_template T d = None \<longleftrightarrow> \<not> sublist start_marker T \<or> \<not> sublist end_marker T) \<and>
   (extract_mjai_log P w a = (w1, Some d) \<and> read_text w1 t = Inr T \<and>
    (\<not> sublist start_marker T \<or> \<not> sublist end_marker T) \<longrightarrow>
      generate_html_file P w a t od =
        (print w1 (''Error: Could not find template markers in '' @ t), None))"
proof -
  have "generate_html_file P w a t od =
        (print w1 (''Error: Could not find template markers in '' @ t), None)"
    if h: "extract_mjai_log P w a = (w1, Some d)" "read_text w1 t = Inr T"
      "\<not> sublist start_marker T \<or> \<not> sublist end_marker T"
  proof -
    from h(3) have "splice_template T d = None"
      by (simp add: splice_template_None)
    with h(1,2) show ?thesis
      by (simp add: generate_html_file_def)
  qed
  then show ?thesis
    using splice_template_None [of T d] by blast
qed

lemma not_sublist_plain: "\<not> sublist start_marker ''<html></html>''"
  by (simp add: str_find_absent [symmetric] start_marker_def NL_def)

lemma demo_extract_a:
  "extract_mjai_log demo_platform demo_world ''logs/a.json.gz'' =
     (demo_world\<lparr>stdout := [''Warning: Skipping invalid JSON line in logs/a.json.gz: {bad...'']\<rparr>,
      Some ''[1]'')"
  using extract_Complete [OF demo_open_a demo_abort]
  by (simp add: demo_stdout demo_valid_lines demo_invalid_lines invalid_line_warning_def
        slice_to_def)

theorem splice_template_fails_iff_marker_absent_witness:
  "extract_mjai_log demo_platform demo_world ''logs/a.json.gz'' =
     (demo_world\<lparr>stdout := [''Warning: Skipping invalid JSON line in logs/a.json.gz: {bad...'']\<rparr>,
      Some ''[1]'') \<and>
   read_text (demo_world\<lparr>stdout := [''Warning: Skipping invalid JSON line in logs/a.json.gz: {bad...'']\<rparr>)
     ''plain.html'' = Inr ''<html></html>'' \<and>
   \<not> sublist start_marker ''<html></html>'' \<and>
   splice_template ''<html></html>'' ''[1]'' = None \<and>
   generate_html_file demo_platform demo_world ''logs/a.json.gz'' ''plain.html'' None =
     (demo_world\<lparr>stdout := [''Warning: Skipping invalid JSON line in logs/a.json.gz: {bad...'',
                              ''Error: Could not find template markers in plain.html'']\<rparr>, None)"
proof -
  have e: "extract_mjai_log demo_platform demo_world ''logs/a.json.gz'' =
     (demo_world\<lparr>stdout := [''Warning: Skipping invalid JSON line in logs/a.json.gz: {bad...'']\<rparr>,
      Some ''[1]'')"
    by (rule demo_extract_a)
  have r: "read_text (demo_world\<lparr>stdout := [''Warning: Skipping invalid JSON line in logs/a.json.gz: {bad...'']\<rparr>)
     ''plain.html'' = Inr ''<html></html>''"
    by (simp add: read_text_def demo_world_def)
  from splice_template_fails_iff_marker_absent
         [of "''<html></html>''" "''[1]''" demo_platform demo_world "''logs/a.json.gz''" _
             "''plain.html''" None]
    e r not_sublist_plain
  show ?thesis by (simp add: print_def)
qed

text \<open>
  The template made of the end marker followed by the start marker holds both markers,
  the first start marker (index 49) after the first end marker (index 0), and is spliced.
\<close>

theorem splice_template_order_counterexample:
  "str_find (end_marker @ start_marker) start_marker = 49 \<and>
   str_find (end_marker @ start_marker) end_marker = 0 \<and>
   splice_template (end_marker @ start_marker) ''[1]'' =
     Some (end_marker @ start_marker @ ''[1]'' @ end_marker @ start_marker)"
proof -
  have s: "str_find (end_marker @ start_marker) start_marker = 49"
    by (simp add: end_marker_def start_marker_def NL_def SQ_def)
  have e: "str_find (end_marker @ start_marker) end_marker = 0"
    by (simp add: end_marker_def start_marker_def NL_def SQ_def)
  have "splice_template (end_marker @ start_marker) ''[1]'' =
     Some (end_marker @ start_marker @ ''[1]'' @ end_marker @ start_marker)"
    by (simp add: splice_template_def s e slice_to_def slice_from_def)
       (simp add: end_marker_def start_marker_def)
  with s e show ?thesis by simp
qed

section \<open>The guard on the selection pattern\<close>

lemma endswith_json_gz_gz: "endswith p ''.json.gz'' \<Longrightarrow> endswith p ''.gz''"
proof -
  have "suffix ''.gz'' ''.json.gz''" by (simp add: suffix_to_prefix)
  then show "endswith p ''.json.gz'' \<Longrightarrow> endswith p ''.gz''"
    unfolding endswith_def by (rule suffix_order.trans)
qed

lemma enforce_limit_Nil: "enforce_limit w lim [] = (w, [])"
  by (cases lim) (simp_all add: enforce_limit_def slice_from_def slice_to_def)

lemma process_directory_refuses:
  assumes "\<not> endswith pattern ''.gz''"
  shows "process_directory P w d t od pattern =
           (w\<lparr>stdout := stdout w @
               [''Warning: Pattern '' @ quoted pattern @ '' does not end with .json.gz'',
                ''Error: Will only process compressed files for safety'']\<rparr>, [])"
proof -
  from assms have "\<not> endswith pattern ''.json.gz''"
    using endswith_json_gz_gz by blast
  with assms show ?thesis
    by (simp add: process_directory_def print_def)
qed

text \<open>
  Claim C5. For a selection pattern that does not end in \<open>.gz\<close>, \<open>process_directory\<close>
  prints the warning and the error and returns the empty list without asking for the
  matching files, no file is written or removed, and the whole run in directory mode
  leaves every file as it was; for a pattern ending in \<open>.gz\<close> but not in \<open>.json.gz\<close> it
  prints the warning and goes on to the matching files.
\<close>

theorem process_directory_pattern_guard:
  "(\<not> endswith pattern ''.gz'' \<longrightarrow>
      process_directory P w d t od pattern =
        (w\<lparr>stdout := stdout w @
            [''Warning: Pattern '' @ quoted pattern @ '' does not end with .json.gz'',
             ''Error: Will only process compressed files for safety'']\<rparr>, []) \<and>
      files (fst (process_directory P w d t od pattern)) = files w \<and>
      (path_exists w (arg_template a) \<and> \<not> isfile w (arg_input a) \<and> isdir w (arg_input a) \<and>
       arg_pattern a = pattern \<longrightarrow>
         files (fst (main P w a)) = files w \<and> snd (main P w a) = 0)) \<and>
   (endswith pattern ''.gz'' \<and> \<not> endswith pattern ''.json.gz'' \<longrightarrow>
      process_directory P w d t od pattern =
        (let w1 = print w (''Warning: Pattern '' @ quoted pattern @ '' does not end with .json.gz'');
             json_gz_files = glob P w1 d pattern
         in if json_gz_files = []
            then (print w1 (''No files matching '' @ quoted pattern @ '' found in '' @ d), [])
            else process_files P t od (length json_gz_files)
                   (print w1 (''Found '' @ str_nat (length json_gz_files) @ '' files to process...''))
                   1 json_gz_files []))"
proof -
  have 1: "files (fst (main P w a)) = files w \<and> snd (main P w a) = 0"
    if h: "\<not> endswith pattern ''.gz''" "path_exists w (arg_template a)" "\<not> isfile w (arg_input a)"
      "isdir w (arg_input a)" "arg_pattern a = pattern"
  proof -
    from h(1,5) have "\<not> endswith (arg_pattern a) ''.gz''" by simp
    from process_directory_refuses [OF this] h(2,3,4) show ?thesis
      by (simp add: main_def enforce_limit_Nil print_def)
  qed
  have 2: "files (fst (process_directory P w d t od pattern)) = files w"
    if "\<not> endswith pattern ''.gz''"
    using process_directory_refuses [OF that] by simp
  have 3: "process_directory P w d t od pattern =
        (let w1 = print w (''Warning: Pattern '' @ quoted pattern @ '' does not end with .json.gz'');
             json_gz_files = glob P w1 d pattern
         in if json_gz_files = []
            then (print w1 (''No files matching '' @ quoted pattern @ '' found in '' @ d), [])
            else process_files P t od (length json_gz_files)
                   (print w1 (''Found '' @ str_nat (length json_gz_files) @ '' files to process...''))
                   1 json_gz_files [])"
    if "endswith pattern ''.gz''" "\<not> endswith pattern ''.json.gz''"
    using that by (simp add: process_directory_def Let_def)
  from 1 2 3 process_directory_refuses [of pattern P w d t od] show ?thesis
    by blast
qed

theorem process_directory_pattern_guard_witness:
  "\<not> endswith ''*.txt'' ''.gz'' \<and>
   path_exists demo_world (arg_template (demo_args ''*.txt'' (Some 1))) \<and>
   \<not> isfile demo_world (arg_input (demo_args ''*.txt'' (Some 1))) \<and>
   isdir demo_world (arg_input (demo_args ''*.txt'' (Some 1))) \<and>
   arg_pattern (demo_args ''*.txt'' (Some 1)) = ''*.txt'' \<and>
   process_directory demo_platform demo_world ''logs'' ''t.html'' None ''*.txt'' =
     (demo_world\<lparr>stdout :=
         [''Warning: Pattern '' @ quoted ''*.txt'' @ '' does not end with .json.gz'',
          ''Error: Will only process compressed files for safety'']\<rparr>, []) \<and>
   files (fst (main demo_platform demo_world (demo_args ''*.txt'' (Some 1)))) = files demo_world \<and>
   snd (main demo_platform demo_world (demo_args ''*.txt'' (Some 1))) = 0 \<and>
   endswith ''*.gz'' ''.gz'' \<and> \<not> endswith ''*.gz'' ''.json.gz'' \<and>
   process_directory demo_platform demo_world ''logs'' ''t.html'' None ''*.gz'' =
     (let w1 = print demo_world (''Warning: Pattern '' @ quoted ''*.gz''
                                  @ '' does not end with .json.gz'');
          json_gz_files = glob demo_platform w1 ''logs'' ''*.gz''
      in if json_gz_files = []
         then (print w1 (''No files matching '' @ quoted ''*.gz'' @ '' found in '' @ ''logs''), [])
         else process_files demo_platform ''t.html'' None (length json_gz_files)
                (print w1 (''Found '' @ str_nat (length json_gz_files) @ '' files to process...''))
                1 json_gz_files [])"
proof -
  have a: "\<not> endswith ''*.txt'' ''.gz''"
    by (simp add: endswith_def suffix_to_prefix)
  have b: "path_exists demo_world (arg_template (demo_args ''*.txt'' (Some 1)))"
    "\<not> isfile demo_world (arg_input (demo_args ''*.txt'' (Some 1)))"
    "isdir demo_world (arg_input (demo_args ''*.txt'' (Some 1)))"
    "arg_pattern (demo_args ''*.txt'' (Some 1)) = ''*.txt''"
    by (simp_all add: path_exists_def isfile_def isdir_def demo_args_def demo_world_def)
  have c: "endswith ''*.gz'' ''.gz''" "\<not> endswith ''*.gz'' ''.json.gz''"
    by (simp_all add: endswith_def suffix_to_prefix)
  from process_directory_pattern_guard
         [of "''*.txt''" demo_platform demo_world "''logs''" "''t.html''" None
             "demo_args ''*.txt'' (Some 1)"] a b
  have 1: "process_directory demo_platform demo_world ''logs'' ''t.html'' None ''*.txt'' =
     (demo_world\<lparr>stdout :=
         [''Warning: Pattern '' @ quoted ''*.txt'' @ '' does not end with .json.gz'',
          ''Error: Will only process compressed files for safety'']\<rparr>, [])"
    and 2: "files (fst (main demo_platform demo_world (demo_args ''*.txt'' (Some 1)))) = files demo_world"
      "snd (main demo_platform demo_world (demo_args ''*.txt'' (Some 1))) = 0"
    by (simp_all add: demo_stdout)
  from process_directory_pattern_guard
         [of "''*.gz''" demo_platform demo_world "''logs''" "''t.html''" None
             "demo_args ''*.txt'' (Some 1)"] c
  have 3: "process_directory demo_platform demo_world ''logs'' ''t.html'' None ''*.gz'' =
     (let w1 = print demo_world (''Warning: Pattern '' @ quoted ''*.gz''
                                  @ '' does not end with .json.gz'');
          json_gz_files = glob demo_platform w1 ''logs'' ''*.gz''
      in if json_gz_files = []
         then (print w1 (''No files matching '' @ quoted ''*.gz'' @ '' found in '' @ ''logs''), [])
         else process_files demo_platform ''t.html'' None (length json_gz_files)
                (print w1 (''Found '' @ str_nat (length json_gz_files) @ '' files to process...''))
                1 json_gz_files [])"
    by blast
  from a b c 1 2 3 show ?thesis by blast
qed

section \<open>The limit on the number of reports\<close>

lemma remove_excess_files:
  "files (remove_excess w p) =
     (if endswith p ''.html'' \<and> files w p \<noteq> None \<and> denied w p = None
      then (files w)(p := None) else files w)"
  by (auto simp: remove_excess_def os_remove_def print_def path_exists_def split: option.splits)

lemma remove_excess_denied: "denied (remove_excess w p) = denied w"
  by (auto simp: remove_excess_def os_remove_def print_def split: option.splits)

lemma foldl_remove_excess_denied: "denied (foldl remove_excess w ps) = denied w"
  by (induction ps arbitrary: w) (simp_all add: remove_excess_denied)

lemma foldl_remove_excess_files:
  "files (foldl remove_excess w ps) q =
     (if q \<in> set ps \<and> endswith q ''.html'' \<and> files w q \<noteq> None \<and> denied w q = None
      then None else files w q)"
proof (induction ps arbitrary: w)
  case Nil
  show ?case by simp
next
  case (Cons p ps)
  show ?case
    by (auto simp: Cons remove_excess_files remove_excess_denied)
qed

lemma slices_in_range:
  assumes "0 < L" and "L < int (length xs)"
  shows "slice_from xs L = drop (nat L) xs" and "slice_to xs L = take (nat L) xs"
  using assms by (simp_all add: slice_from_def slice_to_def)

lemma enforce_limit_in_range:
  assumes "0 < L" and "L < int (length gen)"
  shows "enforce_limit w (Some L) gen =
           (foldl remove_excess w (drop (nat L) gen), take (nat L) gen)"
    and "int (length (snd (enforce_limit w (Some L) gen))) = L"
    and "files (fst (enforce_limit w (Some L) gen)) p =
            (if p \<in> set (drop (nat L) gen) \<and> endswith p ''.html'' \<and> files w p \<noteq> None \<and>
                denied w p = None
             then None else files w p)"
proof -
  show e: "enforce_limit w (Some L) gen =
        (foldl remove_excess w (drop (nat L) gen), take (nat L) gen)"
    using assms by (simp add: enforce_limit_def slices_in_range)
  show "int (length (snd (enforce_limit w (Some L) gen))) = L"
    using assms by (simp add: e)
  show "files (fst (enforce_limit w (Some L) gen)) p =
            (if p \<in> set (drop (nat L) gen) \<and> endswith p ''.html'' \<and> files w p \<noteq> None \<and>
                denied w p = None
             then None else files w p)"
    by (simp add: e foldl_remove_excess_files)
qed

lemma char_of_49: "char_of (49::nat) = CHR ''1''"
  by code_simp

lemma str_nat_1: "str_nat 1 = ''1''" "str_nat (Suc 0) = ''1''"
  by (simp_all add: str_nat.simps char_of_49)

lemma demo_generate_log:
  assumes "files w p = Some ''gz:log''" and "files w ''t.html'' = Some demo_template"
    and "denied w (output_path_of p None) = None" and "output_path_of p None \<notin> dirs w"
    and "output_path_of p None \<noteq> []"
  shows "generate_html_file demo_platform w p ''t.html'' None =
     (w\<lparr>files := (files w)(output_path_of p None \<mapsto> demo_report),
        stdout := stdout w @ [invalid_line_warning p ''{bad'',
                              ''Generated: '' @ output_path_of p None]\<rparr>,
      Some (output_path_of p None))"
proof -
  have o: "gzip_open_rt demo_platform w p = Complete demo_text"
    using assms(1) by (simp add: gzip_open_rt_def demo_platform_def demo_gunzip_def)
  have s: "splice_template demo_template (str_join [NL] (valid_lines demo_platform demo_text))
           = Some demo_report"
    by (simp add: demo_valid_lines demo_splice demo_report_def)
  from generate_ok [OF o demo_abort assms(2) s assms(3) assms(4) assms(5)] show ?thesis
    by (simp add: demo_invalid_lines)
qed

lemma process_files_one_log:
  assumes "files w p = Some ''gz:log''" and "files w ''t.html'' = Some demo_template"
    and "denied w (output_path_of p None) = None" and "output_path_of p None \<notin> dirs w"
    and "output_path_of p None \<noteq> []"
  shows "process_files demo_platform ''t.html'' None n w i [p] [] =
     (w\<lparr>files := (files w)(output_path_of p None \<mapsto> demo_report),
        stdout := stdout w @ [''Processing '' @ str_nat i @ ''/'' @ str_nat n @ '': '' @ basename p,
                              invalid_line_warning p ''{bad'',
                              ''Generated: '' @ output_path_of p None]\<rparr>,
      [output_path_of p None])"
proof -
  define w' where "w' = print w (''Processing '' @ str_nat i @ ''/'' @ str_nat n @ '': ''
                                  @ basename p)"
  have h: "files w' p = Some ''gz:log''" "files w' ''t.html'' = Some demo_template"
    "denied w' (output_path_of p None) = None"
    "output_path_of p None \<notin> dirs w'" "output_path_of p None \<noteq> []"
    using assms by (simp_all add: w'_def print_def)
  have p: "process_files demo_platform ''t.html'' None n w i [p] [] =
      (case generate_html_file demo_platform w' p ''t.html'' None of
         (w2, html_file) \<Rightarrow>
           (w2, case html_file of None \<Rightarrow> [] | Some h \<Rightarrow> if h \<noteq> [] then [] @ [h] else []))"
    unfolding w'_def by (simp add: Let_def)
  show ?thesis
    unfolding p demo_generate_log [OF h] using assms(5)
    by (simp add: w'_def print_def)
qed

lemma process_directory_proceeds:
  assumes "endswith pattern ''.gz''"
    and "w1 = (if \<not> endswith pattern ''.json.gz''
               then print w (''Warning: Pattern '' @ quoted pattern @ '' does not end with .json.gz'')
               else w)"
    and "glob P w1 d pattern = fs" and "fs \<noteq> []"
  shows "process_directory P w d t od pattern =
           process_files P t od (length fs)
             (print w1 (''Found '' @ str_nat (length fs) @ '' files to process...'')) 1 fs []"
  using assms by (simp add: process_directory_def Let_def)

lemma one_process_directory:
  "process_directory demo_platform one_world ''logs'' ''t.html'' None ''*.json.gz'' =
     (one_world\<lparr>files := (files one_world)(''logs/a.html'' \<mapsto> demo_report),
        stdout := [''Found 1 files to process...'', ''Processing 1/1: a.json.gz'',
                   ''Warning: Skipping invalid JSON line in logs/a.json.gz: {bad...'',
                   ''Generated: logs/a.html'']\<rparr>,
      [''logs/a.html''])"
proof -
  have e: "endswith ''*.json.gz'' ''.gz''" "endswith ''*.json.gz'' ''.json.gz''"
    by (simp_all add: endswith_def suffix_to_prefix)
  have w1: "one_world = (if \<not> endswith ''*.json.gz'' ''.json.gz''
               then print one_world (''Warning: Pattern '' @ quoted ''*.json.gz''
                                      @ '' does not end with .json.gz'')
               else one_world)"
    using e(2) by simp
  have g: "glob demo_platform one_world ''logs'' ''*.json.gz'' = [''logs/a.json.gz'']"
    by (simp add: demo_platform_def demo_glob_def one_world_def endswith_def suffix_to_prefix
          SEP_def)
  define w2 where "w2 = print one_world (''Found '' @ str_nat (length [''logs/a.json.gz''])
                                          @ '' files to process...'')"
  have h: "files w2 ''logs/a.json.gz'' = Some ''gz:log''"
    "files w2 ''t.html'' = Some demo_template"
    "denied w2 (output_path_of ''logs/a.json.gz'' None) = None"
    "output_path_of ''logs/a.json.gz'' None \<notin> dirs w2"
    "output_path_of ''logs/a.json.gz'' None \<noteq> []"
    by (simp_all add: w2_def print_def one_world_def output_path_a)
  have p: "process_directory demo_platform one_world ''logs'' ''t.html'' None ''*.json.gz'' =
      process_files demo_platform ''t.html'' None (length [''logs/a.json.gz'']) w2 1
        [''logs/a.json.gz''] []"
    unfolding w2_def by (rule process_directory_proceeds [OF e(1) w1 g]) simp
  show ?thesis
    unfolding p process_files_one_log [OF h]
    by (simp add: w2_def print_def one_world_def output_path_a str_nat_1 basename_def SEP_def
          invalid_line_warning_def slice_to_def)
qed

text \<open>
  Claim C6 at the limit 0. In the directory \<open>logs\<close> holding the one archive \<open>a.json.gz\<close>,
  the run with \<open>--limit 0\<close> generates one report, so the limit 0 is below the number of
  reports; the test \<open>if args.limit and ...\<close> of line 193 takes 0 for no limit, the step
  that removes the reports beyond the limit is skipped, the report \<open>logs/a.html\<close> stays
  and the run announces one generated file. For a limit \<open>L\<close> with \<open>0 < L < N\<close> the step
  does what the claim says (lemma \<open>enforce_limit_in_range\<close>).
\<close>

theorem limit_zero_not_enforced:
  "arg_limit (demo_args ''*.json.gz'' (Some 0)) = Some 0 \<and>
   snd (process_directory demo_platform one_world ''logs'' ''t.html'' None ''*.json.gz'') =
     [''logs/a.html''] \<and>
   (0::int) < int (length [''logs/a.html'']) \<and>
   enforce_limit (fst (process_directory demo_platform one_world ''logs'' ''t.html'' None
                         ''*.json.gz'')) (Some 0) [''logs/a.html''] =
     (fst (process_directory demo_platform one_world ''logs'' ''t.html'' None ''*.json.gz''),
      [''logs/a.html'']) \<and>
   main demo_platform one_world (demo_args ''*.json.gz'' (Some 0)) =
     (one_world\<lparr>files := (files one_world)(''logs/a.html'' \<mapsto> demo_report),
        stdout := [''Found 1 files to process...'', ''Processing 1/1: a.json.gz'',
                   ''Warning: Skipping invalid JSON line in logs/a.json.gz: {bad...'',
                   ''Generated: logs/a.html'',
                   [NL] @ ''Successfully generated 1 HTML files'']\<rparr>, 0) \<and>
   files (fst (main demo_platform one_world (demo_args ''*.json.gz'' (Some 0)))) ''logs/a.html'' =
     Some demo_report"
proof -
  have a: "path_exists one_world (arg_template (demo_args ''*.json.gz'' (Some 0)))"
    "\<not> isfile one_world (arg_input (demo_args ''*.json.gz'' (Some 0)))"
    "isdir one_world (arg_input (demo_args ''*.json.gz'' (Some 0)))"
    by (simp_all add: path_exists_def isfile_def isdir_def demo_args_def one_world_def)
  have m: "main demo_platform one_world (demo_args ''*.json.gz'' (Some 0)) =
     (one_world\<lparr>files := (files one_world)(''logs/a.html'' \<mapsto> demo_report),
        stdout := [''Found 1 files to process...'', ''Processing 1/1: a.json.gz'',
                   ''Warning: Skipping invalid JSON line in logs/a.json.gz: {bad...'',
                   ''Generated: logs/a.html'',
                   [NL] @ ''Successfully generated 1 HTML files'']\<rparr>, 0)"
    using a
    by (simp add: main_def demo_args_def one_process_directory enforce_limit_def print_def
          str_nat_1)
  show ?thesis
    unfolding m by (simp add: demo_args_def one_process_directory enforce_limit_def)
qed

section \<open>The name of the report\<close>

lemma str_replace_suffix_only:
  assumes "old \<noteq> []" and "first_occurrence (stem @ old) old (length stem)"
  shows "str_replace (stem @ old) old new = stem @ new"
  using assms(2)
proof (induction stem)
  case Nil
  then show ?case
  proof (cases old)
    case Nil
    with assms(1) show ?thesis by simp
  next
    case (Cons c s)
    then show ?thesis by simp
  qed
next
  case (Cons c stem)
  from Cons.prems have n: "\<not> prefix old (c # stem @ old)"
    and f: "first_occurrence (stem @ old) old (length stem)"
    by (auto simp: first_occurrence_Cons split: if_splits)
  from Cons.IH [OF f] n assms(1) show ?case by simp
qed

lemma output_path_a_gz: "output_path_of ''logs/a.json.gz.gz'' None = ''logs/a.html.gz''"
  by (simp add: output_path_of_def basename_def dirname_def path_join_def endswith_def SEP_def
        suffix_to_prefix)

lemma output_path_x: "output_path_of ''logs/x.gz'' None = ''logs/x.gz''"
  by (simp add: output_path_of_def basename_def dirname_def path_join_def endswith_def SEP_def
        suffix_to_prefix)

lemma y_generate:
  "generate_html_file demo_platform y_world ''logs/a.json.gz.gz'' ''t.html'' None =
     (y_world\<lparr>files := (files y_world)(''logs/a.html.gz'' \<mapsto> demo_report),
        stdout := [''Warning: Skipping invalid JSON line in logs/a.json.gz.gz: {bad...'',
                   ''Generated: logs/a.html.gz'']\<rparr>,
      Some ''logs/a.html.gz'')"
proof -
  have h: "files y_world ''logs/a.json.gz.gz'' = Some ''gz:log''"
    "files y_world ''t.html'' = Some demo_template"
    "denied y_world (output_path_of ''logs/a.json.gz.gz'' None) = None"
    "output_path_of ''logs/a.json.gz.gz'' None \<notin> dirs y_world"
    "output_path_of ''logs/a.json.gz.gz'' None \<noteq> []"
    by (simp_all add: y_world_def output_path_a_gz)
  show ?thesis
    unfolding demo_generate_log [OF h]
    by (simp add: output_path_a_gz y_world_def invalid_line_warning_def slice_to_def)
qed

lemma y_process_directory:
  "process_directory demo_platform y_world ''logs'' ''t.html'' None ''*.gz'' =
     (y_world\<lparr>files := (files y_world)(''logs/a.html.gz'' \<mapsto> demo_report),
        stdout := [''Warning: Pattern '' @ quoted ''*.gz'' @ '' does not end with .json.gz'',
                   ''Found 1 files to process...'', ''Processing 1/1: a.json.gz.gz'',
                   ''Warning: Skipping invalid JSON line in logs/a.json.gz.gz: {bad...'',
                   ''Generated: logs/a.html.gz'']\<rparr>,
      [''logs/a.html.gz''])"
proof -
  have e: "endswith ''*.gz'' ''.gz''" "\<not> endswith ''*.gz'' ''.json.gz''"
    by (simp_all add: endswith_def suffix_to_prefix)
  define w1 where "w1 = print y_world (''Warning: Pattern '' @ quoted ''*.gz''
                                         @ '' does not end with .json.gz'')"
  have w1': "w1 = (if \<not> endswith ''*.gz'' ''.json.gz''
               then print y_world (''Warning: Pattern '' @ quoted ''*.gz''
                                    @ '' does not end with .json.gz'')
               else y_world)"
    using e(2) by (simp add: w1_def)
  have g: "glob demo_platform w1 ''logs'' ''*.gz'' = [''logs/a.json.gz.gz'']"
    by (simp add: w1_def print_def demo_platform_def demo_glob_def y_world_def endswith_def
          suffix_to_prefix SEP_def)
  define w2 where "w2 = print w1 (''Found '' @ str_nat (length [''logs/a.json.gz.gz''])
                                   @ '' files to process...'')"
  have h: "files w2 ''logs/a.json.gz.gz'' = Some ''gz:log''"
    "files w2 ''t.html'' = Some demo_template"
    "denied w2 (output_path_of ''logs/a.json.gz.gz'' None) = None"
    "output_path_of ''logs/a.json.gz.gz'' None \<notin> dirs w2"
    "output_path_of ''logs/a.json.gz.gz'' None \<noteq> []"
    by (simp_all add: w2_def w1_def print_def y_world_def output_path_a_gz)
  have p: "process_directory demo_platform y_world ''logs'' ''t.html'' None ''*.gz'' =
      process_files demo_platform ''t.html'' None (length [''logs/a.json.gz.gz'']) w2 1
        [''logs/a.json.gz.gz''] []"
    unfolding w2_def by (rule process_directory_proceeds [OF e(1) w1' g]) simp
  show ?thesis
    unfolding p process_files_one_log [OF h]
    by (simp add: w2_def w1_def print_def y_world_def output_path_a_gz str_nat_1 basename_def
          SEP_def invalid_line_warning_def slice_to_def)
qed

text \<open>
  Claim C1 at the archive \<open>logs/a.json.gz.gz\<close>, whose name does not end in \<open>.json.gz\<close>.
  The generator surfaces no error: \<open>str.replace\<close> (line 94) rewrites the \<open>.json.gz\<close> inside
  the name, and the report is written to \<open>logs/a.html.gz\<close>, a name that does not end in
  \<open>.html\<close>; so does the run on the directory with the pattern \<open>*.gz\<close>, which the guard
  lets through with a warning about the pattern only. On the same path the single-file
  entry of \<open>main\<close> (lines 178 to 180) makes the check that the generator leaves out: it
  prints the error and exits with status 1.
\<close>

theorem report_name_suffix_unchecked:
  "\<not> endswith ''logs/a.json.gz.gz'' ''.json.gz'' \<and>
   \<not> endswith (basename ''logs/a.json.gz.gz'') ''.json.gz'' \<and>
   output_path_of ''logs/a.json.gz.gz'' None = ''logs/a.html.gz'' \<and>
   \<not> endswith ''logs/a.html.gz'' ''.html'' \<and>
   generate_html_file demo_platform y_world ''logs/a.json.gz.gz'' ''t.html'' None =
     (y_world\<lparr>files := (files y_world)(''logs/a.html.gz'' \<mapsto> demo_report),
        stdout := [''Warning: Skipping invalid JSON line in logs/a.json.gz.gz: {bad...'',
                   ''Generated: logs/a.html.gz'']\<rparr>,
      Some ''logs/a.html.gz'') \<and>
   process_directory demo_platform y_world ''logs'' ''t.html'' None ''*.gz'' =
     (y_world\<lparr>files := (files y_world)(''logs/a.html.gz'' \<mapsto> demo_report),
        stdout := [''Warning: Pattern '' @ quoted ''*.gz'' @ '' does not end with .json.gz'',
                   ''Found 1 files to process...'', ''Processing 1/1: a.json.gz.gz'',
                   ''Warning: Skipping invalid JSON line in logs/a.json.gz.gz: {bad...'',
                   ''Generated: logs/a.html.gz'']\<rparr>,
      [''logs/a.html.gz'']) \<and>
   main demo_platform y_world
     \<lparr>arg_input = ''logs/a.json.gz.gz'', arg_template = ''t.html'', arg_output = None,
      arg_pattern = ''*.json.gz'', arg_limit = None\<rparr> =
     (print y_world ''Error: Input file must be a .json.gz file'', 1)"
proof -
  have a: "\<not> endswith ''logs/a.json.gz.gz'' ''.json.gz''"
    "\<not> endswith (basename ''logs/a.json.gz.gz'') ''.json.gz''"
    "\<not> endswith ''logs/a.html.gz'' ''.html''"
    by (simp_all add: basename_def endswith_def SEP_def suffix_to_prefix)
  have m: "main demo_platform y_world
     \<lparr>arg_input = ''logs/a.json.gz.gz'', arg_template = ''t.html'', arg_output = None,
      arg_pattern = ''*.json.gz'', arg_limit = None\<rparr> =
     (print y_world ''Error: Input file must be a .json.gz file'', 1)"
    using a(1) by (simp add: main_def path_exists_def isfile_def y_world_def)
  from a m output_path_a_gz y_generate y_process_directory show ?thesis
    by simp
qed

lemma x_glob:
  "files w = files x_world \<Longrightarrow> glob demo_platform w ''logs'' ''*.gz'' = [''logs/x.gz'']"
  by (simp add: demo_platform_def demo_glob_def x_world_def endswith_def suffix_to_prefix SEP_def)

lemma x_process_files:
  assumes "files w = files x_world" and "denied w = denied x_world" and "dirs w = dirs x_world"
  shows "snd (process_files demo_platform ''t.html'' None n w i [''logs/x.gz''] []) =
           [''logs/x.gz'']"
    and "files (fst (process_files demo_platform ''t.html'' None n w i [''logs/x.gz''] []))
           ''logs/x.gz'' = Some demo_report"
proof -
  define w' where "w' = print w (''Processing '' @ str_nat i @ ''/'' @ str_nat n @ '': ''
                                  @ basename ''logs/x.gz'')"
  have h: "files w' ''logs/x.gz'' = Some ''gz:log''" "files w' ''t.html'' = Some demo_template"
    "denied w' (output_path_of ''logs/x.gz'' None) = None"
    "output_path_of ''logs/x.gz'' None \<notin> dirs w'" "output_path_of ''logs/x.gz'' None \<noteq> []"
    using assms by (simp_all add: w'_def print_def x_world_def output_path_x)
  have p: "process_files demo_platform ''t.html'' None n w i [''logs/x.gz''] [] =
      (case generate_html_file demo_platform w' ''logs/x.gz'' ''t.html'' None of
         (w2, html_file) \<Rightarrow>
           (w2, case html_file of None \<Rightarrow> [] | Some h \<Rightarrow> if h \<noteq> [] then [] @ [h] else []))"
    unfolding w'_def by (simp add: Let_def)
  show "snd (process_files demo_platform ''t.html'' None n w i [''logs/x.gz''] []) =
           [''logs/x.gz'']"
    unfolding p demo_generate_log [OF h] by (simp add: output_path_x)
  show "files (fst (process_files demo_platform ''t.html'' None n w i [''logs/x.gz''] []))
           ''logs/x.gz'' = Some demo_report"
    unfolding p demo_generate_log [OF h] by (simp add: output_path_x)
qed

text \<open>
  Claim C2 at the directory \<open>logs\<close> holding the archive \<open>x.gz\<close>, with the pattern \<open>*.gz\<close>
  and no output directory: the path the report is written to is the path of the archive,
  whose contents are replaced by the report.
\<close>

theorem archive_overwritten_by_report:
  "files x_world ''logs/x.gz'' = Some ''gz:log'' \<and>
   output_path_of ''logs/x.gz'' None = ''logs/x.gz'' \<and>
   snd (process_directory demo_platform x_world ''logs'' ''t.html'' None ''*.gz'') =
     [''logs/x.gz''] \<and>
   files (fst (process_directory demo_platform x_world ''logs'' ''t.html'' None ''*.gz''))
     ''logs/x.gz'' = Some demo_report \<and>
   demo_report \<noteq> ''gz:log''"
proof -
  have f: "files x_world ''logs/x.gz'' = Some ''gz:log''"
    by (simp add: x_world_def)
  have e: "endswith ''*.gz'' ''.gz''" "\<not> endswith ''*.gz'' ''.json.gz''"
    by (simp_all add: endswith_def suffix_to_prefix)
  define w1 where "w1 = print x_world (''Warning: Pattern '' @ quoted ''*.gz''
                                         @ '' does not end with .json.gz'')"
  define w2 where "w2 = print w1 (''Found '' @ str_nat (length [''logs/x.gz''])
                                   @ '' files to process...'')"
  have w1': "w1 = (if \<not> endswith ''*.gz'' ''.json.gz''
               then print x_world (''Warning: Pattern '' @ quoted ''*.gz''
                                    @ '' does not end with .json.gz'')
               else x_world)"
    using e(2) by (simp add: w1_def)
  have fw1: "files w1 = files x_world"
    by (simp add: w1_def print_def)
  have g: "glob demo_platform w1 ''logs'' ''*.gz'' = [''logs/x.gz'']"
    by (rule x_glob) (rule fw1)
  have w2f: "files w2 = files x_world" "denied w2 = denied x_world" "dirs w2 = dirs x_world"
    by (simp_all add: w2_def w1_def print_def)
  have p: "process_directory demo_platform x_world ''logs'' ''t.html'' None ''*.gz'' =
      process_files demo_platform ''t.html'' None (length [''logs/x.gz'']) w2 1 [''logs/x.gz''] []"
    unfolding w2_def by (rule process_directory_proceeds [OF e(1) w1' g]) simp
  from f x_process_files [OF w2f] show ?thesis
    unfolding p by (simp add: output_path_x demo_report_def)
qed

end
